theory Spec2Isabelle
  imports Complex_Main
begin

section \<open>Ambient effects: the random source and the clock\<close>

text \<open>
  The service draws from \<^verbatim>\<open>Math.random()\<close> and reads the clock with
  \<^verbatim>\<open>Date.now()\<close> / \<^verbatim>\<open>new Date()\<close>. Both are modelled as infinite supplies of
  upcoming results that every call consumes from the front: \<open>draws w 0\<close> is what the next
  \<^verbatim>\<open>Math.random()\<close> returns, \<open>ticks w 0\<close> the next clock reading in milliseconds.
\<close>

record world =
  draws :: "nat \<Rightarrow> real"
  ticks :: "nat \<Rightarrow> nat"

definition Math_random :: "world \<Rightarrow> real \<times> world" where
  "Math_random w = (draws w 0, w\<lparr>draws := (\<lambda>n. draws w (Suc n))\<rparr>)"

definition Date_now :: "world \<Rightarrow> nat \<times> world" where
  "Date_now w = (ticks w 0, w\<lparr>ticks := (\<lambda>n. ticks w (Suc n))\<rparr>)"

section \<open>Numbers\<close>

text \<open>
  A JavaScript number is an IEEE 754 double. The model takes a finite double as the real
  that is its value. \<open>fl x\<close> is the double nearest to \<open>x\<close>: the multiple of the unit in
  the last place of the binade of \<open>x\<close> (53 significant bits, gradual underflow below
  \<open>2\<^sup>-\<^sup>1\<^sup>0\<^sup>2\<^sup>2\<close>) nearest to \<open>x\<close>, the one with the even significand on a tie. The
  model has no Infinity and no NaN: the operations of the source below yield them only
  when the magnitude of an exact result reaches \<open>2\<^sup>1\<^sup>0\<^sup>2\<^sup>4\<close>, where the model goes on with the
  finite value.
\<close>

definition rne :: "real \<Rightarrow> int" where
  "rne y =
     (let f = \<lfloor>y\<rfloor>; d = y - of_int f
      in if d < 1 / 2 then f
         else if 1 / 2 < d then f + 1
         else if even f then f else f + 1)"

definition ulp_exponent :: "real \<Rightarrow> int" where
  "ulp_exponent x = max (\<lfloor>log 2 \<bar>x\<bar>\<rfloor> - 52) (- 1074)"

definition fl :: "real \<Rightarrow> real" where
  "fl x =
     (if x = 0 then 0
      else of_int (rne (x / 2 powi ulp_exponent x)) * 2 powi ulp_exponent x)"

definition is_double :: "real \<Rightarrow> bool" where
  "is_double x = (fl x = x)"

text \<open>
  An arithmetic operation of the source is the exact operation followed by rounding, and a
  decimal literal is the double nearest to it. \<^verbatim>\<open>Math.sqrt\<close> is the rounded square root
  and \<^verbatim>\<open>Math.pow(z, 2)\<close> the rounded product \<open>z * z\<close>, as the engines compute them.
  Sums, products and quotients of whole numbers that stay below \<open>2\<^sup>5\<^sup>3\<close>, such as array
  lengths and loop indices, are exact and written as such.
\<close>

definition add_d :: "real \<Rightarrow> real \<Rightarrow> real" where
  "add_d a b = fl (a + b)"

definition sub_d :: "real \<Rightarrow> real \<Rightarrow> real" where
  "sub_d a b = fl (a - b)"

definition mul_d :: "real \<Rightarrow> real \<Rightarrow> real" where
  "mul_d a b = fl (a * b)"

definition div_d :: "real \<Rightarrow> real \<Rightarrow> real" where
  "div_d a b = fl (a / b)"

definition sqrt_d :: "real \<Rightarrow> real" where
  "sqrt_d a = fl (sqrt a)"

definition lit :: "real \<Rightarrow> real" where
  "lit x = fl x"

text \<open>
  The contract of \<^verbatim>\<open>Math.random()\<close>: every result is a double in \<open>[0, 1)\<close>.
\<close>

definition unit_draws :: "world \<Rightarrow> bool" where
  "unit_draws w = (\<forall>n. is_double (draws w n) \<and> 0 \<le> draws w n \<and> draws w n < 1)"

section \<open>Data of the ML service\<close>

record boundingBox =
  box_x :: real
  box_y :: real
  box_width :: real
  box_height :: real

text \<open>
  A detection as \<^verbatim>\<open>performObjectDetection\<close> builds it. The class is \<open>None\<close> where
  JavaScript has \<^verbatim>\<open>undefined\<close> (an array read out of range).
\<close>

record detection =
  det_class :: "string option"
  det_confidence :: real
  det_boundingBox :: boundingBox
  det_id :: string

record point =
  pt_x :: real
  pt_y :: real

record accident =
  acc_vehicle1 :: "string option"
  acc_vehicle2 :: "string option"
  acc_confidence :: real
  acc_distance :: real
  acc_location :: point
  acc_severity :: string
  acc_timestamp :: nat

text \<open>\<^verbatim>\<open>this.detectionClasses.vehicle\<close> and \<^verbatim>\<open>this.accidentThresholds\<close>.\<close>

definition vehicle_classes :: "string list" where
  "vehicle_classes = [''car'', ''truck'', ''bus'', ''motorcycle'', ''bicycle'']"

definition minVehicles :: nat where
  "minVehicles = 2"

definition maxDistanceBetweenVehicles :: real where
  "maxDistanceBetweenVehicles = 100"

definition collisionConfidenceThreshold :: real where
  "collisionConfidenceThreshold = lit (7 / 10)"

text \<open>\<^verbatim>\<open>this.detectionClasses.vehicle.includes(d.class)\<close>\<close>

definition is_vehicle :: "detection \<Rightarrow> bool" where
  "is_vehicle d = (case det_class d of None \<Rightarrow> False | Some c \<Rightarrow> c \<in> set vehicle_classes)"

section \<open>Scoring functions of the ML service\<close>

text \<open>\<^verbatim>\<open>Math.pow(z, 2)\<close>\<close>

definition Math_pow2 :: "real \<Rightarrow> real" where
  "Math_pow2 z = mul_d z z"

definition calculateDistance :: "boundingBox \<Rightarrow> boundingBox \<Rightarrow> real" where
  "calculateDistance box1 box2 =
     (let c1x = add_d (box_x box1) (div_d (box_width box1) 2);
          c1y = add_d (box_y box1) (div_d (box_height box1) 2);
          c2x = add_d (box_x box2) (div_d (box_width box2) 2);
          c2y = add_d (box_y box2) (div_d (box_height box2) 2)
      in sqrt_d (add_d (Math_pow2 (sub_d c1x c2x)) (Math_pow2 (sub_d c1y c2y))))"

text \<open>
  The arithmetic of \<^verbatim>\<open>calculateCollisionConfidence\<close> once its draw \<open>r\<close> is known:
  \<open>baseCollision = r * 0.3\<close> is the variance term. The products associate to the left, as
  the source expression does.
\<close>

definition collision_score :: "real \<Rightarrow> real \<Rightarrow> real \<Rightarrow> real \<Rightarrow> real" where
  "collision_score c1 c2 distance r =
     (let confidenceProduct = mul_d c1 c2;
          distanceFactor = max 0 (sub_d 1 (div_d distance 200));
          baseCollision = mul_d r (lit (3 / 10))
      in min 1 (add_d (mul_d (mul_d confidenceProduct distanceFactor) (lit (12 / 10)))
                  baseCollision))"

definition calculateCollisionConfidence ::
    "detection \<Rightarrow> detection \<Rightarrow> real \<Rightarrow> world \<Rightarrow> real \<times> world" where
  "calculateCollisionConfidence vehicle1 vehicle2 distance w =
     (let (r, w1) = Math_random w
      in (collision_score (det_confidence vehicle1) (det_confidence vehicle2) distance r, w1))"

text \<open>
  \<^verbatim>\<open>calculateSeverity(confidence, distance)\<close>. The confidence is a double and so is each
  threshold: what the source writes \<^verbatim>\<open>0.85\<close> is the number \<open>lit (85 / 100)\<close>, and the
  fraction \<open>85 / 100\<close> itself is the value of no JavaScript number.
\<close>

definition calculateSeverity :: "real \<Rightarrow> real \<Rightarrow> string" where
  "calculateSeverity confidence distance =
     (if confidence > lit (85 / 100) then ''critical''
      else if confidence > lit (75 / 100) then ''high''
      else if confidence > lit (65 / 100) then ''medium''
      else ''low'')"

definition calculateAccidentConfidence :: "accident list \<Rightarrow> real" where
  "calculateAccidentConfidence accidents =
     (if length accidents = 0 then 0
      else
        (let avgConfidence =
               div_d (foldl (\<lambda>sum acc. add_d sum (acc_confidence acc)) 0 accidents)
                 (real (length accidents))
         in min 1 (add_d avgConfidence (if length accidents > 1 then lit (1 / 10) else 0))))"

section \<open>The detection generator\<close>

text \<open>Decimal rendering of a natural number, as template strings render an integer.\<close>

definition digit_char :: "nat \<Rightarrow> char" where
  "digit_char d = ''0123456789'' ! (d mod 10)"

fun show_nat :: "nat \<Rightarrow> string" where
  "show_nat n =
     (if n < 10 then [digit_char n]
      else show_nat (n div 10) @ [digit_char (n mod 10)])"

text \<open>An array read \<^verbatim>\<open>xs[i]\<close>: \<^verbatim>\<open>undefined\<close> out of range.\<close>

definition js_index :: "'a list \<Rightarrow> int \<Rightarrow> 'a option" where
  "js_index xs i = (if 0 \<le> i \<and> i < int (length xs) then Some (xs ! nat i) else None)"

text \<open>
  The body of the vehicle loop of \<^verbatim>\<open>performObjectDetection\<close>: six draws (class,
  confidence, x, y, width, height, in the order the object literal evaluates them) and one
  clock reading for the identity tag.
\<close>

definition vehicle_detection :: "nat \<Rightarrow> world \<Rightarrow> detection \<times> world" where
  "vehicle_detection i w =
     (let (r1, w1) = Math_random w;
          vehicleClass =
            js_index vehicle_classes \<lfloor>mul_d r1 (real (length vehicle_classes))\<rfloor>;
          (r2, w2) = Math_random w1;
          (r3, w3) = Math_random w2;
          (r4, w4) = Math_random w3;
          (r5, w5) = Math_random w4;
          (r6, w6) = Math_random w5;
          (t, w7) = Date_now w6
      in (\<lparr>det_class = vehicleClass,
           det_confidence = add_d (lit (85 / 100)) (mul_d r2 (lit (15 / 100))),
           det_boundingBox =
             \<lparr>box_x = mul_d r3 800, box_y = mul_d r4 400,
              box_width = add_d 80 (mul_d r5 120), box_height = add_d 60 (mul_d r6 100)\<rparr>,
           det_id = ''vehicle_'' @ show_nat i @ ''_'' @ show_nat t\<rparr>, w7))"

definition push_vehicle :: "nat \<Rightarrow> detection list \<times> world \<Rightarrow> detection list \<times> world" where
  "push_vehicle i st = (let (d, w1) = vehicle_detection i (snd st) in (fst st @ [d], w1))"

definition person_detection :: "world \<Rightarrow> detection \<times> world" where
  "person_detection w =
     (let (r1, w1) = Math_random w;
          (r2, w2) = Math_random w1;
          (r3, w3) = Math_random w2;
          (t, w4) = Date_now w3
      in (\<lparr>det_class = Some ''person'',
           det_confidence = add_d (lit (75 / 100)) (mul_d r1 (lit (25 / 100))),
           det_boundingBox =
             \<lparr>box_x = mul_d r2 800, box_y = mul_d r3 400, box_width = 30, box_height = 70\<rparr>,
           det_id = ''person_'' @ show_nat t\<rparr>, w4))"

text \<open>
  \<^verbatim>\<open>performObjectDetection(frameData)\<close>. The loop \<^verbatim>\<open>for (i = 0; i < vehicleCount; i++)\<close>
  runs over \<open>[0..<nat vehicleCount]\<close>: no iteration for a count that is not positive.
  \<open>frameData\<close> is never read.
\<close>

definition performObjectDetection :: "'f \<Rightarrow> world \<Rightarrow> detection list \<times> world" where
  "performObjectDetection frameData w =
     (let (r0, w0) = Math_random w;
          vehicleCount = \<lfloor>mul_d r0 5\<rfloor> + 2;
          (detections, w1) = fold push_vehicle [0..<nat vehicleCount] ([], w0);
          (rp, w2) = Math_random w1
      in if rp > lit (7 / 10) then
           (let (p, w3) = person_detection w2 in (detections @ [p], w3))
         else (detections, w2))"

section \<open>The collision analyzer\<close>

text \<open>
  The body of the two nested loops of \<^verbatim>\<open>detectAccidents\<close> at indices \<open>i\<close>, \<open>j\<close>; the
  state is the \<^verbatim>\<open>accidents\<close> array built so far and the world.
\<close>

definition check_pair ::
    "detection list \<Rightarrow> nat \<Rightarrow> nat \<Rightarrow> accident list \<times> world \<Rightarrow> accident list \<times> world" where
  "check_pair vehicles i j st =
     (let vehicle1 = vehicles ! i;
          vehicle2 = vehicles ! j;
          distance = calculateDistance (det_boundingBox vehicle1) (det_boundingBox vehicle2)
      in if distance < maxDistanceBetweenVehicles then
           (let (collisionConfidence, w1) =
                  calculateCollisionConfidence vehicle1 vehicle2 distance (snd st)
            in if collisionConfidence > collisionConfidenceThreshold then
                 (let (t, w2) = Date_now w1
                  in (fst st @
                      [\<lparr>acc_vehicle1 = det_class vehicle1,
                        acc_vehicle2 = det_class vehicle2,
                        acc_confidence = collisionConfidence,
                        acc_distance = distance,
                        acc_location =
                          \<lparr>pt_x = div_d (add_d (box_x (det_boundingBox vehicle1))
                                           (box_x (det_boundingBox vehicle2))) 2,
                           pt_y = div_d (add_d (box_y (det_boundingBox vehicle1))
                                           (box_y (det_boundingBox vehicle2))) 2\<rparr>,
                        acc_severity = calculateSeverity collisionConfidence distance,
                        acc_timestamp = t\<rparr>], w2))
               else (fst st, w1))
         else st)"

text \<open>
  \<^verbatim>\<open>detectAccidents(detections)\<close>: \<open>i\<close> runs over \<open>[0..<length vehicles]\<close> and \<open>j\<close> over
  \<open>[i+1..<length vehicles]\<close>, so every read \<open>vehicles ! i\<close> is in range.
\<close>

definition detectAccidents :: "detection list \<Rightarrow> world \<Rightarrow> accident list \<times> world" where
  "detectAccidents detections w =
     (let vehicles = filter is_vehicle detections
      in if length vehicles < minVehicles then ([], w)
         else fold (\<lambda>i. fold (check_pair vehicles i) [Suc i..<length vehicles])
                [0..<length vehicles] ([], w))"

record frameAnalysis =
  fa_vehicleCount :: nat
  fa_personCount :: nat
  fa_objectCount :: nat
  fa_averageConfidence :: real
  fa_crowdLevel :: string

definition analyzeFrameContext :: "detection list \<Rightarrow> frameAnalysis" where
  "analyzeFrameContext detections =
     (let vehicleCount = length (filter is_vehicle detections);
          personCount = length (filter (\<lambda>d. det_class d = Some ''person'') detections);
          avgConfidence =
            (if length detections > 0
             then div_d (foldl (\<lambda>sum d. add_d sum (det_confidence d)) 0 detections)
                    (real (length detections))
             else 0)
      in \<lparr>fa_vehicleCount = vehicleCount,
          fa_personCount = personCount,
          fa_objectCount = length detections,
          fa_averageConfidence = avgConfidence,
          fa_crowdLevel =
            (if vehicleCount > 4 then ''heavy''
             else if vehicleCount > 2 then ''moderate'' else ''light'')\<rparr>)"

record detectionResult =
  res_detections :: "detection list"
  res_accidentDetected :: bool
  res_accidents :: "accident list"
  res_confidence :: real
  res_timestamp :: nat
  res_frameAnalysis :: frameAnalysis

text \<open>
  \<^verbatim>\<open>processFrame\<close> is the generator followed by the analysis of what it produced.
  \<open>analyzeDetections\<close> is the part of its body after the first line, for any list of
  detections; nothing in either part throws, so the \<^verbatim>\<open>catch\<close> branch is never taken.
\<close>

definition analyzeDetections :: "detection list \<Rightarrow> world \<Rightarrow> detectionResult \<times> world" where
  "analyzeDetections detections w =
     (let (accidents, w1) = detectAccidents detections w;
          (t, w2) = Date_now w1
      in (\<lparr>res_detections = detections,
           res_accidentDetected = (length accidents > 0),
           res_accidents = accidents,
           res_confidence =
             (if length accidents > 0 then calculateAccidentConfidence accidents else 0),
           res_timestamp = t,
           res_frameAnalysis = analyzeFrameContext detections\<rparr>, w2))"

definition processFrame :: "'f \<Rightarrow> world \<Rightarrow> detectionResult \<times> world" where
  "processFrame frameData w =
     (let (detections, w1) = performObjectDetection frameData w
      in analyzeDetections detections w1)"

section \<open>The persistent store\<close>

text \<open>
  The tables of the migrations, with the columns the handlers read or write (the
  \<^verbatim>\<open>created_at\<close>/\<^verbatim>\<open>updated_at\<close> bookkeeping columns are left out). Identifiers stand
  for uuids, timestamps are clock readings. A status column that the handlers only ever
  write with a literal allowed by its \<^verbatim>\<open>CHECK\<close> constraint is a datatype; the severity
  of an alert comes from a JSON document and stays a string.
\<close>

type_synonym uuid = nat
type_synonym timestamp = nat

datatype stream_status = Active | Inactive | Error | Alert
datatype pending_status = Pending | Approved | Rejected
datatype alert_status = Alert_pending | Sent | Acknowledged | Resolved
datatype alert_type = Accident | Traffic_jam | Weather | System

text \<open>
  The \<^verbatim>\<open>detection_data\<close> JSON document of a pending alert: the members the approve handler
  reads, each absent (\<open>None\<close>) or present, and the rest of the document, which no handler
  inspects, as \<open>dd_body\<close>.
\<close>

record detection_data =
  dd_location :: "string option"
  dd_latitude :: "real option"
  dd_longitude :: "real option"
  dd_severity :: "string option"
  dd_accident_count :: "real option"
  dd_body :: string

record stream_row =
  st_id :: uuid
  st_url :: string
  st_location :: string
  st_latitude :: "real option"
  st_longitude :: "real option"
  st_status :: stream_status
  st_is_processing :: bool
  st_last_processed :: "timestamp option"
  st_accident_count :: int

record pending_row =
  pa_id :: uuid
  pa_stream_id :: uuid
  pa_detection_data :: detection_data
  pa_frame_timestamp :: timestamp
  pa_confidence :: real
  pa_status :: pending_status
  pa_approved_by :: "string option"
  pa_approved_at :: "timestamp option"
  pa_rejection_reason :: "string option"

record alert_row =
  al_id :: uuid
  al_stream_id :: uuid
  al_location :: string
  al_latitude :: "real option"
  al_longitude :: "real option"
  al_severity :: string
  al_type :: alert_type
  al_status :: alert_status
  al_confidence :: real
  al_detection_data :: detection_data
  al_description :: string
  al_sent_at :: "timestamp option"

text \<open>What \<^verbatim>\<open>req.io.emit\<close> has broadcast, oldest first.\<close>

datatype event =
    Alert_approved uuid "alert_row option"
  | Alert_rejected pending_row
  | Stream_started "stream_row option"

text \<open>
  The state the handlers act on: the three tables, the next identifier
  \<^verbatim>\<open>gen_random_uuid()\<close> hands out, the broadcast log, the timers that
  \<^verbatim>\<open>setInterval\<close> has registered and that have not been cleared (each with the stream its
  callback captured; only a timer's own callback ever clears it), and the world.
\<close>

record server =
  tbl_streams :: "stream_row list"
  tbl_pending_alerts :: "pending_row list"
  tbl_alerts :: "alert_row list"
  fresh_uuid :: uuid
  emitted :: "event list"
  intervals :: "stream_row option list"
  env :: world

datatype db_error = No_single_row | Check_violation | Foreign_key_violation | Out_of_range

datatype 'a response = Ok_200 'a | Not_found_404 string | Error_500 string

text \<open>
  A query result \<^verbatim>\<open>{ data, error }\<close>. \<^verbatim>\<open>.single()\<close> asks for exactly one row: the
  Supabase client answers any other number of rows, none included, with an error and no
  data. A handler therefore throws on an unknown identifier before it reaches its
  \<^verbatim>\<open>if (!data)\<close> test; the test is kept in the model all the same.
\<close>

fun single :: "'a list \<Rightarrow> 'a option \<times> db_error option" where
  "single [r] = (Some r, None)"
| "single rs = (None, Some No_single_row)"

text \<open>\<^verbatim>\<open>new Date().toISOString()\<close> inside a handler.\<close>

definition clock_read :: "server \<Rightarrow> timestamp \<times> server" where
  "clock_read s = (let (t, w) = Date_now (env s) in (t, s\<lparr>env := w\<rparr>))"

text \<open>
  \<^verbatim>\<open>x || d\<close> on an optional string and on an optional number: the default replaces a
  missing value, the empty string and zero.
\<close>

definition or_string :: "string option \<Rightarrow> string \<Rightarrow> string" where
  "or_string x d = (case x of None \<Rightarrow> d | Some v \<Rightarrow> if v = [] then d else v)"

definition or_number :: "real option \<Rightarrow> real \<Rightarrow> real" where
  "or_number x d = (case x of None \<Rightarrow> d | Some n \<Rightarrow> if n = 0 then d else n)"

text \<open>
  The column \<^verbatim>\<open>accident_count\<close> of \<^verbatim>\<open>streams\<close> has the type \<^verbatim>\<open>integer\<close>: the database
  takes a number for it only if it is whole and lies between \<open>-2\<^sup>3\<^sup>1\<close> and \<open>2\<^sup>3\<^sup>1 - 1\<close>, and
  refuses the whole update otherwise.
\<close>

definition fits_integer :: "real \<Rightarrow> bool" where
  "fits_integer x = (of_int \<lfloor>x\<rfloor> = x \<and> - (2 ^ 31) \<le> x \<and> x < 2 ^ 31)"

text \<open>
  \<^verbatim>\<open>x.toFixed(2)\<close>: the multiple of \<open>1/100\<close> nearest to the exact value of the double
  \<open>x\<close>, the larger one on a tie (below \<open>10\<^sup>2\<^sup>1\<close>, where JavaScript switches to exponent
  notation).
\<close>

definition toFixed2 :: "real \<Rightarrow> string" where
  "toFixed2 x =
     (let n = nat \<lfloor>\<bar>x\<bar> * 100 + 1 / 2\<rfloor>
      in (if x < 0 then ''-'' else []) @ show_nat (n div 100) @ ''.'' @
         [digit_char (n div 10 mod 10), digit_char (n mod 10)])"

text \<open>
  \<^verbatim>\<open>from('alerts').insert([alertData]).select().single()\<close>. The row gets a fresh
  identifier; the insert fails on the constraints of the \<^verbatim>\<open>alerts\<close> table that depend on
  the data: the \<^verbatim>\<open>CHECK\<close> on the severity and the foreign key to \<^verbatim>\<open>streams\<close>.
\<close>

definition insert_alert ::
    "(uuid \<Rightarrow> alert_row) \<Rightarrow> server \<Rightarrow> (alert_row option \<times> db_error option) \<times> server" where
  "insert_alert alertData s =
     (let row = alertData (fresh_uuid s)
      in if al_severity row \<notin> {''low'', ''medium'', ''high'', ''critical''}
         then ((None, Some Check_violation), s)
         else if al_stream_id row \<notin> st_id ` set (tbl_streams s)
         then ((None, Some Foreign_key_violation), s)
         else ((Some row, None),
               s\<lparr>tbl_alerts := tbl_alerts s @ [row], fresh_uuid := Suc (fresh_uuid s)\<rparr>))"

section \<open>The pending-alert handlers\<close>

text \<open>
  The object \<^verbatim>\<open>alertData\<close> that the approve handler builds from the fetched pending alert;
  \<open>t\<close> is the clock reading of its \<^verbatim>\<open>sent_at\<close>, and the identifier is the one the
  insert assigns. The column \<^verbatim>\<open>confidence\<close> is a \<^verbatim>\<open>numeric\<close>; the handler reads it as the
  double nearest to it, which is what \<^verbatim>\<open>toFixed\<close> formats.
\<close>

definition alertData :: "pending_row \<Rightarrow> timestamp \<Rightarrow> uuid \<Rightarrow> alert_row" where
  "alertData pendingAlert t i =
     (let dd = pa_detection_data pendingAlert
      in \<lparr>al_id = i,
          al_stream_id = pa_stream_id pendingAlert,
          al_location = or_string (dd_location dd) ''Unknown'',
          al_latitude = dd_latitude dd,
          al_longitude = dd_longitude dd,
          al_severity = or_string (dd_severity dd) ''high'',
          al_type = Accident,
          al_status = Sent,
          al_confidence = pa_confidence pendingAlert,
          al_detection_data = dd,
          al_description =
            ''Accident detected with '' @ toFixed2 (lit (pa_confidence pendingAlert)) @
            '' confidence'',
          al_sent_at = Some t\<rparr>)"

text \<open>
  The last database call of the approve handler,
  \<^verbatim>\<open>from('streams').update({ status: 'alert', accident_count: ... }).eq('id', stream_id)\<close>.
  The database refuses the update when the count does not fit the column, and the stream
  then stays as it was. The handler awaits the call and does not look at its result.
\<close>

definition update_stream_alert :: "uuid \<Rightarrow> real \<Rightarrow> server \<Rightarrow> db_error option \<times> server" where
  "update_stream_alert stream_id accident_count s =
     (if fits_integer accident_count
      then (None,
            s\<lparr>tbl_streams :=
                map (\<lambda>r. if st_id r = stream_id
                          then r\<lparr>st_status := Alert, st_accident_count := \<lfloor>accident_count\<rfloor>\<rparr>
                          else r)
                  (tbl_streams s)\<rparr>)
      else (Some Out_of_range, s))"

text \<open>
  \<^verbatim>\<open>router.post('/:id/approve')\<close> with \<^verbatim>\<open>req.params.id\<close> and \<^verbatim>\<open>req.body.approved_by\<close>:
  fetch, update of the pending alert (first clock reading), insert of the alert (second
  clock reading), update of the stream with its result dropped, broadcast, response with
  the row as fetched.
\<close>

definition approve ::
    "uuid \<Rightarrow> string option \<Rightarrow> server \<Rightarrow>
       (pending_row \<times> alert_row option) response \<times> server" where
  "approve ident approved_by s =
     (case single (filter (\<lambda>r. pa_id r = ident) (tbl_pending_alerts s)) of
        (_, Some fetchError) \<Rightarrow> (Error_500 ''Failed to approve pending alert'', s)
      | (None, None) \<Rightarrow> (Not_found_404 ''Pending alert not found'', s)
      | (Some pendingAlert, None) \<Rightarrow>
          (let (t1, s1) = clock_read s;
               s2 = s1\<lparr>tbl_pending_alerts :=
                      map (\<lambda>r. if pa_id r = ident
                                then r\<lparr>pa_status := Approved,
                                       pa_approved_by := Some (or_string approved_by ''system''),
                                       pa_approved_at := Some t1\<rparr>
                                else r)
                        (tbl_pending_alerts s1)\<rparr>;
               (t2, s3) = clock_read s2
           in case insert_alert (alertData pendingAlert t2) s3 of
                ((_, Some alertError), s4) \<Rightarrow> (Error_500 ''Failed to approve pending alert'', s4)
              | ((finalAlert, None), s4) \<Rightarrow>
                  (let (_, s5) =
                         update_stream_alert (pa_stream_id pendingAlert)
                           (or_number (dd_accident_count (pa_detection_data pendingAlert)) 1) s4;
                       s6 = s5\<lparr>emitted := emitted s5 @ [Alert_approved ident finalAlert]\<rparr>
                   in (Ok_200 (pendingAlert, finalAlert), s6))))"

text \<open>
  \<^verbatim>\<open>router.post('/:id/reject')\<close> with \<^verbatim>\<open>req.params.id\<close>, \<^verbatim>\<open>req.body.rejection_reason\<close>
  and \<^verbatim>\<open>req.body.approved_by\<close>: one update that returns the updated row.
\<close>

definition reject ::
    "uuid \<Rightarrow> string option \<Rightarrow> string option \<Rightarrow> server \<Rightarrow> pending_row response \<times> server" where
  "reject ident rejection_reason approved_by s =
     (let (t, s1) = clock_read s;
          s2 = s1\<lparr>tbl_pending_alerts :=
                 map (\<lambda>r. if pa_id r = ident
                           then r\<lparr>pa_status := Rejected,
                                  pa_rejection_reason := Some (or_string rejection_reason ''User rejected''),
                                  pa_approved_by := Some (or_string approved_by ''system''),
                                  pa_approved_at := Some t\<rparr>
                           else r)
                   (tbl_pending_alerts s1)\<rparr>
      in case single (filter (\<lambda>r. pa_id r = ident) (tbl_pending_alerts s2)) of
           (_, Some error) \<Rightarrow> (Error_500 ''Failed to reject pending alert'', s2)
         | (None, None) \<Rightarrow> (Not_found_404 ''Pending alert not found'', s2)
         | (Some alert, None) \<Rightarrow>
             (Ok_200 alert, s2\<lparr>emitted := emitted s2 @ [Alert_rejected alert]\<rparr>))"

section \<open>Starting a stream\<close>

text \<open>
  \<^verbatim>\<open>processStreamWithML(stream, ...)\<close> returns once \<^verbatim>\<open>setInterval\<close> has registered the
  polling callback for \<open>stream\<close>.
\<close>

definition processStreamWithML :: "stream_row option \<Rightarrow> server \<Rightarrow> server" where
  "processStreamWithML stream s = s\<lparr>intervals := intervals s @ [stream]\<rparr>"

text \<open>\<^verbatim>\<open>router.post('/:id/start')\<close> with \<^verbatim>\<open>req.params.id\<close>.\<close>

definition start :: "uuid \<Rightarrow> server \<Rightarrow> stream_row option response \<times> server" where
  "start ident s =
     (case single (filter (\<lambda>r. st_id r = ident) (tbl_streams s)) of
        (_, Some error) \<Rightarrow> (Error_500 ''Failed to start stream monitoring'', s)
      | (None, None) \<Rightarrow> (Not_found_404 ''Stream not found'', s)
      | (Some stream, None) \<Rightarrow>
          (let (t, s1) = clock_read s;
               s2 = s1\<lparr>tbl_streams :=
                      map (\<lambda>r. if st_id r = ident
                                then r\<lparr>st_status := Active,
                                       st_is_processing := True,
                                       st_last_processed := Some t\<rparr>
                                else r)
                        (tbl_streams s1)\<rparr>
           in case single (filter (\<lambda>r. st_id r = ident) (tbl_streams s2)) of
                (_, Some updateError) \<Rightarrow> (Error_500 ''Failed to start stream monitoring'', s2)
              | (updatedStream, None) \<Rightarrow>
                  (let s3 = processStreamWithML updatedStream s2;
                       s4 = s3\<lparr>emitted := emitted s3 @ [Stream_started updatedStream]\<rparr>
                   in (Ok_200 updatedStream, s4))))"

text \<open>
  The same route in the older variant of the router, on the Mongoose models (the document
  has the fields of \<open>stream_row\<close> under camel-case names): \<^verbatim>\<open>findById\<close> yields
  \<^verbatim>\<open>null\<close> for an unknown identifier, the handler mutates the document, saves it and
  hands it to \<^verbatim>\<open>processStreamWithML\<close>.
\<close>

definition start_mongoose :: "uuid \<Rightarrow> server \<Rightarrow> stream_row response \<times> server" where
  "start_mongoose ident s =
     (case find (\<lambda>r. st_id r = ident) (tbl_streams s) of
        None \<Rightarrow> (Not_found_404 ''Stream not found'', s)
      | Some stream \<Rightarrow>
          (let (t, s1) = clock_read s;
               saved = stream\<lparr>st_status := Active,
                             st_is_processing := True,
                             st_last_processed := Some t\<rparr>;
               s2 = s1\<lparr>tbl_streams :=
                      map (\<lambda>r. if st_id r = ident then saved else r) (tbl_streams s1)\<rparr>;
               s3 = processStreamWithML (Some saved) s2;
               s4 = s3\<lparr>emitted := emitted s3 @ [Stream_started (Some saved)]\<rparr>
           in (Ok_200 saved, s4)))"

text \<open>Whether a response reports a failure to the caller.\<close>

fun is_error :: "'a response \<Rightarrow> bool" where
  "is_error (Ok_200 x) = False"
| "is_error (Not_found_404 m) = True"
| "is_error (Error_500 m) = True"

section \<open>Vocabulary for the properties of the collision analyzer\<close>










definition confidence_formula :: "real \<Rightarrow> real \<Rightarrow> real \<Rightarrow> real \<Rightarrow> real" where
  "confidence_formula c1 c2 d U = min 1 (c1 * c2 * max 0 (1 - d / 200) * (12 / 10) + U)"

definition confidence_formula_d :: "real \<Rightarrow> real \<Rightarrow> real \<Rightarrow> real \<Rightarrow> real" where
  "confidence_formula_d c1 c2 d U =
     min 1 (add_d (mul_d (mul_d (mul_d c1 c2) (max 0 (sub_d 1 (div_d d 200)))) (lit (12 / 10))) U)"








text \<open>
  A generated vehicle: a class of the vehicle list and a confidence from the double
  nearest to 0.85 up to 1.
\<close>

definition generated_vehicle :: "detection \<Rightarrow> bool" where
  "generated_vehicle v =
     (is_vehicle v \<and> lit (85 / 100) \<le> det_confidence v \<and> det_confidence v \<le> 1)"

section \<open>Vocabulary for the properties of the handlers\<close>

text \<open>
  The rows that the three updates write, and the condition under which the insert into
  \<^verbatim>\<open>alerts\<close> passes the constraints of the table.
\<close>

definition approved_row :: "string option \<Rightarrow> timestamp \<Rightarrow> pending_row \<Rightarrow> pending_row" where
  "approved_row who t p =
     p\<lparr>pa_status := Approved,
       pa_approved_by := Some (or_string who ''system''),
       pa_approved_at := Some t\<rparr>"

definition rejected_row ::
    "string option \<Rightarrow> string option \<Rightarrow> timestamp \<Rightarrow> pending_row \<Rightarrow> pending_row" where
  "rejected_row reason who t p =
     p\<lparr>pa_status := Rejected,
       pa_rejection_reason := Some (or_string reason ''User rejected''),
       pa_approved_by := Some (or_string who ''system''),
       pa_approved_at := Some t\<rparr>"

definition started_row :: "timestamp \<Rightarrow> stream_row \<Rightarrow> stream_row" where
  "started_row t r = r\<lparr>st_status := Active, st_is_processing := True, st_last_processed := Some t\<rparr>"

definition alert_insertable :: "pending_row \<Rightarrow> server \<Rightarrow> bool" where
  "alert_insertable p s =
     (or_string (dd_severity (pa_detection_data p)) ''high'' \<in> {''low'', ''medium'', ''high'', ''critical''}
      \<and> pa_stream_id p \<in> st_id ` set (tbl_streams s))"

text \<open>
  The streams after the update that ends an approval of the pending alert \<open>p\<close>: changed
  when the accident count that the handler writes fits the column, and as before when the
  database refuses the update.
\<close>

definition alerted_streams :: "pending_row \<Rightarrow> stream_row list \<Rightarrow> stream_row list" where
  "alerted_streams p rows =
     (if fits_integer (or_number (dd_accident_count (pa_detection_data p)) 1)
      then map (\<lambda>r. if st_id r = pa_stream_id p
                     then r\<lparr>st_status := Alert,
                            st_accident_count :=
                              \<lfloor>or_number (dd_accident_count (pa_detection_data p)) 1\<rfloor>\<rparr>
                     else r) rows
      else rows)"

text \<open>
  The state after an approval that went through, for the pending alert \<open>p\<close> as fetched.
\<close>

definition approve_ok_state :: "uuid \<Rightarrow> string option \<Rightarrow> pending_row \<Rightarrow> server \<Rightarrow> server" where
  "approve_ok_state k who p s =
     s\<lparr>tbl_pending_alerts :=
         map (\<lambda>r. if pa_id r = k then approved_row who (ticks (env s) 0) r else r)
           (tbl_pending_alerts s),
       tbl_alerts := tbl_alerts s @ [alertData p (ticks (env s) 1) (fresh_uuid s)],
       fresh_uuid := Suc (fresh_uuid s),
       tbl_streams := alerted_streams p (tbl_streams s),
       emitted := emitted s @
         [Alert_approved k (Some (alertData p (ticks (env s) 1) (fresh_uuid s)))],
       env := (env s)\<lparr>ticks := (\<lambda>n. ticks (env s) (Suc (Suc n)))\<rparr>\<rparr>"

section \<open>Concrete inputs\<close>

text \<open>
  A detection with a box of 80 by 60 whose left edge is at \<open>x0\<close>, a world whose draws
  are all \<open>r\<close> and whose clock advances by one at every reading, and a detection with a
  box of any place and size.
\<close>

definition car_at :: "string \<Rightarrow> real \<Rightarrow> real \<Rightarrow> detection" where
  "car_at c conf x0 =
     \<lparr>det_class = Some c, det_confidence = conf,
      det_boundingBox = \<lparr>box_x = x0, box_y = 0, box_width = 80, box_height = 60\<rparr>,
      det_id = ''v''\<rparr>"

definition steady_world :: "real \<Rightarrow> world" where
  "steady_world r = \<lparr>draws = (\<lambda>n. r), ticks = (\<lambda>n. 1000 + n)\<rparr>"


text \<open>
  A candidate of confidence \<open>c\<close>.
\<close>

definition candidate_of :: "real \<Rightarrow> accident" where
  "candidate_of c =
     \<lparr>acc_vehicle1 = Some ''car'', acc_vehicle2 = Some ''bus'', acc_confidence = c,
      acc_distance = 50, acc_location = \<lparr>pt_x = 0, pt_y = 0\<rparr>, acc_severity = ''high'',
      acc_timestamp = 1000\<rparr>"



text \<open>
  A store with one idle stream that has seen three accidents and one pending alert for it;
  the same store with a pending alert whose payload names neither severity nor location;
  the same store with a pending alert whose payload carries an accident count of three
  thousand million; the first store after its alert has been approved; the first store
  after the stream has been started.
\<close>

definition camera :: stream_row where
  "camera =
     \<lparr>st_id = 7, st_url = ''cam-1'', st_location = ''Main St'', st_latitude = None,
      st_longitude = None, st_status = Inactive, st_is_processing = False,
      st_last_processed = None, st_accident_count = 3\<rparr>"

definition waiting :: pending_row where
  "waiting =
     \<lparr>pa_id = 12, pa_stream_id = 7,
      pa_detection_data =
        \<lparr>dd_location = Some ''Main St'', dd_latitude = None, dd_longitude = None,
         dd_severity = Some ''critical'', dd_accident_count = None, dd_body = []\<rparr>,
      pa_frame_timestamp = 990, pa_confidence = 848 / 1000, pa_status = Pending,
      pa_approved_by = None, pa_approved_at = None, pa_rejection_reason = None\<rparr>"

definition office :: server where
  "office =
     \<lparr>tbl_streams = [camera], tbl_pending_alerts = [waiting], tbl_alerts = [],
      fresh_uuid = 100, emitted = [], intervals = [],
      env = \<lparr>draws = (\<lambda>n. 0), ticks = (\<lambda>n. 1000 + n)\<rparr>\<rparr>"

definition bare :: pending_row where
  "bare =
     \<lparr>pa_id = 13, pa_stream_id = 7,
      pa_detection_data =
        \<lparr>dd_location = None, dd_latitude = None, dd_longitude = None,
         dd_severity = None, dd_accident_count = None, dd_body = []\<rparr>,
      pa_frame_timestamp = 990, pa_confidence = 3 / 4, pa_status = Pending,
      pa_approved_by = None, pa_approved_at = None, pa_rejection_reason = None\<rparr>"

definition lobby :: server where
  "lobby = office\<lparr>tbl_pending_alerts := [bare]\<rparr>"

definition huge :: pending_row where
  "huge =
     \<lparr>pa_id = 14, pa_stream_id = 7,
      pa_detection_data =
        \<lparr>dd_location = Some ''Main St'', dd_latitude = None, dd_longitude = None,
         dd_severity = Some ''critical'', dd_accident_count = Some 3000000000, dd_body = []\<rparr>,
      pa_frame_timestamp = 990, pa_confidence = 848 / 1000, pa_status = Pending,
      pa_approved_by = None, pa_approved_at = None, pa_rejection_reason = None\<rparr>"

definition vault :: server where
  "vault = office\<lparr>tbl_pending_alerts := [huge]\<rparr>"

definition decided :: server where
  "decided = snd (approve 12 (Some ''operator-1'') office)"

definition monitored :: server where
  "monitored = snd (start 7 office)"

section \<open>Rounding to the nearest double\<close>

text \<open>
  Rounding to the nearest integer is monotone and leaves the integers alone.
\<close>

lemma rne_floor: "\<lfloor>y\<rfloor> \<le> rne y \<and> rne y \<le> \<lfloor>y\<rfloor> + 1"
  by (simp add: rne_def Let_def)

lemma rne_of_int [simp]: "rne (of_int k) = k"
  by (simp add: rne_def Let_def)

lemma rne_numeral [simp]: "rne (numeral n) = numeral n"
  using rne_of_int [of "numeral n"] by simp

lemma rne_0 [simp]: "rne 0 = 0"
  using rne_of_int [of 0] by simp

lemma rne_1 [simp]: "rne 1 = 1"
  using rne_of_int [of 1] by simp

lemma rne_mono: "y \<le> z \<Longrightarrow> rne y \<le> rne z"
proof -
  assume yz: "y \<le> z"
  then have fl: "\<lfloor>y\<rfloor> \<le> \<lfloor>z\<rfloor>" by (rule floor_mono)
  show ?thesis
  proof (cases "\<lfloor>y\<rfloor> = \<lfloor>z\<rfloor>")
    case True
    with yz show ?thesis by (auto simp: rne_def Let_def)
  next
    case False
    with fl have "\<lfloor>y\<rfloor> + 1 \<le> \<lfloor>z\<rfloor>" by simp
    with rne_floor [of y] rne_floor [of z] show ?thesis by linarith
  qed
qed

lemma rne_nonneg: "0 \<le> y \<Longrightarrow> 0 \<le> rne y"
  using rne_mono [of 0 y] by simp

text \<open>
  The binade of a number, and the value of \<open>fl\<close> once the binade is known.
\<close>

lemma binade:
  assumes "x \<noteq> 0"
  shows "2 powi \<lfloor>log 2 \<bar>x\<bar>\<rfloor> \<le> \<bar>x\<bar> \<and> \<bar>x\<bar> < 2 powi (\<lfloor>log 2 \<bar>x\<bar>\<rfloor> + 1)"
proof -
  from assms have pos: "0 < \<bar>x\<bar>" by simp
  have "2 powr real_of_int \<lfloor>log 2 \<bar>x\<bar>\<rfloor> \<le> \<bar>x\<bar> \<and>
        \<bar>x\<bar> < 2 powr (real_of_int \<lfloor>log 2 \<bar>x\<bar>\<rfloor> + 1)"
    using floor_log_eq_powr_iff [OF pos, of 2 "\<lfloor>log 2 \<bar>x\<bar>\<rfloor>"] by simp
  moreover have "real_of_int \<lfloor>log 2 \<bar>x\<bar>\<rfloor> + 1 = real_of_int (\<lfloor>log 2 \<bar>x\<bar>\<rfloor> + 1)" by simp
  ultimately show ?thesis
    by (simp only: powr_real_of_int' [of 2, simplified])
qed

lemma binade_unique:
  assumes "2 powi e \<le> \<bar>x\<bar>" "\<bar>x\<bar> < 2 powi (e + 1)"
  shows "\<lfloor>log 2 \<bar>x\<bar>\<rfloor> = e"
proof -
  have p: "0 < (2::real) powi e" by simp
  with assms(1) have pos: "0 < \<bar>x\<bar>" by linarith
  have "2 powr real_of_int e \<le> \<bar>x\<bar>" "\<bar>x\<bar> < 2 powr (real_of_int e + 1)"
    using assms powr_real_of_int' [of 2 e] powr_real_of_int' [of 2 "e + 1"] by simp_all
  then show ?thesis
    using floor_log_eq_powr_iff [OF pos, of 2 e] by simp
qed

lemma fl_eval:
  assumes "2 powi e \<le> \<bar>x\<bar>" "\<bar>x\<bar> < 2 powi (e + 1)"
  shows "fl x =
    of_int (rne (x / 2 powi max (e - 52) (- 1074))) * 2 powi max (e - 52) (- 1074)"
proof -
  have "x \<noteq> 0"
  proof
    assume "x = 0"
    with assms(1) have "2 powi e \<le> (0::real)" by simp
    moreover have "0 < (2::real) powi e" by simp
    ultimately show False by linarith
  qed
  then show ?thesis
    by (simp add: fl_def ulp_exponent_def binade_unique [OF assms])
qed

lemma fl_0 [simp]: "fl 0 = 0"
  by (simp add: fl_def)

lemma fl_nonneg: "0 \<le> x \<Longrightarrow> 0 \<le> fl x"
  by (auto simp: fl_def intro!: mult_nonneg_nonneg rne_nonneg divide_nonneg_nonneg)

text \<open>
  Rounding is monotone.
\<close>

lemma ulp_exponent_mono:
  assumes "0 < x" "x \<le> y"
  shows "ulp_exponent x \<le> ulp_exponent y"
proof -
  from assms have "log 2 x \<le> log 2 y" by simp
  then have "\<lfloor>log 2 x\<rfloor> \<le> \<lfloor>log 2 y\<rfloor>" by (rule floor_mono)
  with assms show ?thesis by (simp add: ulp_exponent_def)
qed

lemma fl_upper:
  assumes "0 < x"
  shows "fl x \<le> 2 powi (ulp_exponent x + 53)"
proof -
  let ?u = "ulp_exponent x"
  from assms have nz: "x \<noteq> 0" by simp
  have "\<lfloor>log 2 \<bar>x\<bar>\<rfloor> + 1 \<le> ?u + 53" by (simp add: ulp_exponent_def)
  then have "(2::real) powi (\<lfloor>log 2 \<bar>x\<bar>\<rfloor> + 1) \<le> 2 powi (?u + 53)"
    by (intro power_int_increasing) simp_all
  with binade [OF nz] assms have "x \<le> 2 powi (?u + 53)" by simp
  then have "x / 2 powi ?u \<le> 2 powi (?u + 53) / 2 powi ?u"
    by (intro divide_right_mono) simp_all
  also have "2 powi (?u + 53) / 2 powi ?u = (2::real) powi 53"
    by (simp add: power_int_add)
  also have "(2::real) powi 53 = of_int (2 ^ 53)" by simp
  finally have "rne (x / 2 powi ?u) \<le> rne (of_int (2 ^ 53))" by (rule rne_mono)
  then have "real_of_int (rne (x / 2 powi ?u)) \<le> 2 powi 53" by simp
  then have "real_of_int (rne (x / 2 powi ?u)) * 2 powi ?u \<le> 2 powi 53 * 2 powi ?u"
    by (intro mult_right_mono) simp_all
  also have "(2::real) powi 53 * 2 powi ?u = 2 powi (?u + 53)"
    by (simp add: power_int_add)
  finally show ?thesis using nz by (simp add: fl_def)
qed

lemma fl_lower:
  assumes "0 < x" "- 1074 < ulp_exponent x"
  shows "2 powi (ulp_exponent x + 52) \<le> fl x"
proof -
  let ?u = "ulp_exponent x"
  from assms have nz: "x \<noteq> 0" by simp
  from assms(2) have u: "?u = \<lfloor>log 2 \<bar>x\<bar>\<rfloor> - 52" by (simp add: ulp_exponent_def)
  then have "\<lfloor>log 2 \<bar>x\<bar>\<rfloor> = ?u + 52" by simp
  with binade [OF nz] assms have "2 powi (?u + 52) \<le> x" by simp
  then have "2 powi (?u + 52) / 2 powi ?u \<le> x / 2 powi ?u"
    by (intro divide_right_mono) simp_all
  moreover have "2 powi (?u + 52) / 2 powi ?u = (2::real) powi 52"
    by (simp add: power_int_add)
  moreover have "(2::real) powi 52 = of_int (2 ^ 52)" by simp
  ultimately have "rne (of_int (2 ^ 52)) \<le> rne (x / 2 powi ?u)"
    by (intro rne_mono) simp
  then have "2 powi 52 \<le> real_of_int (rne (x / 2 powi ?u))" by simp
  then have "2 powi 52 * 2 powi ?u \<le> real_of_int (rne (x / 2 powi ?u)) * 2 powi ?u"
    by (intro mult_right_mono) simp_all
  then have "2 powi 52 * 2 powi ?u \<le> fl x" using nz by (simp only: fl_def if_False)
  moreover have "(2::real) powi 52 * 2 powi ?u = 2 powi (?u + 52)"
    by (simp add: power_int_add)
  ultimately show ?thesis by (simp only:)
qed

lemma fl_mono_pos:
  assumes "0 < x" "x \<le> y"
  shows "fl x \<le> fl y"
proof -
  from assms have ypos: "0 < y" by simp
  have ule: "ulp_exponent x \<le> ulp_exponent y" using assms by (rule ulp_exponent_mono)
  show ?thesis
  proof (cases "ulp_exponent x = ulp_exponent y")
    case True
    let ?q = "(2::real) powi ulp_exponent y"
    from assms(2) have "x / ?q \<le> y / ?q" by (intro divide_right_mono) simp_all
    then have "rne (x / ?q) \<le> rne (y / ?q)" by (rule rne_mono)
    then have "real_of_int (rne (x / ?q)) * ?q \<le> real_of_int (rne (y / ?q)) * ?q"
      by (intro mult_right_mono) simp_all
    with True assms ypos show ?thesis by (simp add: fl_def)
  next
    case False
    with ule have lt: "ulp_exponent x + 1 \<le> ulp_exponent y" by simp
    have "- 1074 \<le> ulp_exponent x" by (simp add: ulp_exponent_def)
    with lt have "- 1074 < ulp_exponent y" by simp
    from fl_lower [OF ypos this] have "2 powi (ulp_exponent y + 52) \<le> fl y" .
    moreover from lt have "(2::real) powi (ulp_exponent x + 53) \<le> 2 powi (ulp_exponent y + 52)"
      by (intro power_int_increasing) simp_all
    moreover note fl_upper [OF assms(1)]
    ultimately show ?thesis by linarith
  qed
qed

lemma fl_mono: "0 \<le> x \<Longrightarrow> x \<le> y \<Longrightarrow> fl x \<le> fl y"
  by (cases "x = 0") (auto intro: fl_mono_pos fl_nonneg)

text \<open>
  The doubles: the largest double below 1 is \<open>1 - 2\<^sup>-\<^sup>5\<^sup>3\<close>; an integer of less than 54
  bits times a power of two is a double; every result of \<open>fl\<close> is a double; between
  \<open>1/2\<close> and 1 the doubles are the multiples of \<open>2\<^sup>-\<^sup>5\<^sup>3\<close>.
\<close>

lemma double_below_one:
  assumes "is_double r" "r < 1"
  shows "r \<le> 1 - 1 / 2 ^ 53"
proof (cases "1 / 2 \<le> r")
  case False
  then show ?thesis by simp
next
  case True
  then have "2 powi (- 1) \<le> \<bar>r\<bar>" "\<bar>r\<bar> < 2 powi (- 1 + 1)" using assms(2) by simp_all
  from fl_eval [OF this] have "fl r = of_int (rne (r / 2 powi (- 53))) * 2 powi (- 53)"
    by simp
  with assms(1) have r: "r = of_int (rne (r * 2 ^ 53)) / 2 ^ 53"
    by (simp add: is_double_def power_int_minus divide_simps)
  with assms(2) have "of_int (rne (r * 2 ^ 53)) < (2 ^ 53 :: real)"
    by (simp add: divide_simps)
  then have "real_of_int (rne (r * 2 ^ 53)) < real_of_int (2 ^ 53)" by simp
  then have "rne (r * 2 ^ 53) < 2 ^ 53" by (simp only: of_int_less_iff)
  then have "rne (r * 2 ^ 53) \<le> 2 ^ 53 - 1" by simp
  then have "real_of_int (rne (r * 2 ^ 53)) \<le> real_of_int (2 ^ 53 - 1)"
    by (simp only: of_int_le_iff)
  then have "real_of_int (rne (r * 2 ^ 53)) \<le> 2 ^ 53 - 1" by simp
  then have "real_of_int (rne (r * 2 ^ 53)) / 2 ^ 53 \<le> (2 ^ 53 - 1) / 2 ^ 53"
    by (intro divide_right_mono) simp_all
  with r show ?thesis by (simp add: diff_divide_distrib)
qed

lemma is_double_scaled:
  assumes "\<bar>k\<bar> < 2 ^ 53" "- 1074 \<le> v"
  shows "is_double (of_int k * 2 powi v)"
proof (cases "k = 0")
  case True
  then show ?thesis by (simp add: is_double_def)
next
  case False
  define x :: real where "x = of_int k * 2 powi v"
  from False have nz: "x \<noteq> 0" by (simp add: x_def)
  define e where "e = \<lfloor>log 2 \<bar>x\<bar>\<rfloor>"
  define u where "u = ulp_exponent x"
  have "\<bar>real_of_int k\<bar> < 2 ^ 53"
    using assms(1) by (metis of_int_abs of_int_less_numeral_power_cancel_iff)
  then have "\<bar>real_of_int k\<bar> * 2 powi v < 2 ^ 53 * 2 powi v"
    by (intro mult_strict_right_mono) simp_all
  then have "\<bar>x\<bar> < 2 ^ 53 * 2 powi v" by (simp add: x_def abs_mult)
  also have "(2::real) ^ 53 * 2 powi v = 2 powi (53 + v)"
    by (simp add: power_int_add)
  finally have "\<bar>x\<bar> < 2 powi (53 + v)" .
  with binade [OF nz] have lt: "(2::real) powi e < 2 powi (53 + v)" by (simp add: e_def)
  have "e < 53 + v"
  proof (rule ccontr)
    assume "\<not> e < 53 + v"
    then have "(2::real) powi (53 + v) \<le> 2 powi e"
      by (intro power_int_increasing) simp_all
    with lt show False by simp
  qed
  with assms(2) have un: "u \<le> v" by (simp add: u_def ulp_exponent_def e_def)
  define m where "m = nat (v - u)"
  from un have m: "int m = v - u" by (simp add: m_def)
  have "x / 2 powi u = of_int k * 2 powi (v - u)"
    by (simp add: x_def power_int_diff)
  also have "(2::real) powi (v - u) = 2 ^ m" by (simp add: m [symmetric])
  finally have q: "x / 2 powi u = of_int (k * 2 ^ m)" by simp
  have "fl x = of_int (k * 2 ^ m) * 2 powi u"
    using nz by (simp add: fl_def u_def [symmetric] q del: of_int_mult of_int_power)
  also have "\<dots> = of_int k * (2 powi int m * 2 powi u)" by simp
  also have "2 powi int m * 2 powi u = (2::real) powi v"
    by (simp add: m power_int_add [symmetric])
  finally show ?thesis by (simp add: is_double_def x_def)
qed


lemma is_double_fl: "is_double (fl x)"
proof (cases "x = 0")
  case True
  then show ?thesis by (simp add: is_double_def)
next
  case False
  define u where "u = ulp_exponent x"
  define m where "m = rne (x / 2 powi u)"
  have u: "- 1074 \<le> u" by (simp add: u_def ulp_exponent_def)
  have fx: "fl x = of_int m * 2 powi u" using False by (simp add: fl_def u_def m_def)
  have "\<lfloor>log 2 \<bar>x\<bar>\<rfloor> + 1 \<le> u + 53" by (simp add: u_def ulp_exponent_def)
  then have "(2::real) powi (\<lfloor>log 2 \<bar>x\<bar>\<rfloor> + 1) \<le> 2 powi (u + 53)"
    by (intro power_int_increasing) simp_all
  with binade [OF False] have "\<bar>x\<bar> \<le> 2 powi (u + 53)" by simp
  then have "\<bar>x\<bar> / 2 powi u \<le> 2 powi (u + 53) / 2 powi u"
    by (intro divide_right_mono) simp_all
  also have "2 powi (u + 53) / 2 powi u = (2::real) powi 53" by (simp add: power_int_add)
  finally have ab: "\<bar>x\<bar> / 2 powi u \<le> 2 ^ 53" by simp
  define y where "y = x / 2 powi u"
  have "\<bar>y\<bar> = \<bar>x\<bar> / 2 powi u" by (simp add: y_def abs_divide)
  with ab have "\<bar>y\<bar> \<le> 2 ^ 53" by simp
  then have "y \<le> 2 ^ 53" "- (2 ^ 53) \<le> y" by linarith+
  then have y: "y \<le> of_int (2 ^ 53)" "of_int (- (2 ^ 53)) \<le> y" by simp_all
  have "rne y \<le> rne (of_int (2 ^ 53))" by (rule rne_mono) (rule y(1))
  moreover have "rne (of_int (- (2 ^ 53))) \<le> rne y" by (rule rne_mono) (rule y(2))
  ultimately have mb: "m \<le> 2 ^ 53" "- (2 ^ 53) \<le> m" by (simp_all only: rne_of_int m_def y_def)
  consider "\<bar>m\<bar> < 2 ^ 53" | "m = 2 ^ 53" | "m = - (2 ^ 53)" using mb by linarith
  then show ?thesis
  proof cases
    case 1
    from is_double_scaled [OF 1 u] show ?thesis by (simp add: fx)
  next
    case 2
    have "is_double (of_int (2 ^ 52) * 2 powi (u + 1))"
      using u by (intro is_double_scaled) simp_all
    moreover have "of_int (2 ^ 52) * 2 powi (u + 1) = fl x"
      by (simp add: fx 2 power_int_add)
    ultimately show ?thesis by simp
  next
    case 3
    have "is_double (of_int (- (2 ^ 52)) * 2 powi (u + 1))"
      using u by (intro is_double_scaled) simp_all
    moreover have "of_int (- (2 ^ 52)) * 2 powi (u + 1) = fl x"
      by (simp add: fx 3 power_int_add)
    ultimately show ?thesis by simp
  qed
qed


lemma double_grid:
  assumes "is_double r" "1 / 2 \<le> r" "r < 1"
  shows "r = of_int (rne (r * 2 ^ 53)) / 2 ^ 53"
proof -
  from assms have "2 powi (- 1) \<le> \<bar>r\<bar>" "\<bar>r\<bar> < 2 powi (- 1 + 1)" by simp_all
  from fl_eval [OF this] have "fl r = of_int (rne (r / 2 powi (- 53))) * 2 powi (- 53)"
    by simp
  with assms(1) show ?thesis
    by (simp add: is_double_def power_int_minus divide_simps)
qed

lemma next_double:
  assumes "is_double c" "of_int k / 2 ^ 53 < c" "2 ^ 52 \<le> k" "k < 2 ^ 53"
  shows "of_int (k + 1) / 2 ^ 53 \<le> c"
proof (cases "c < 1")
  case False
  from assms(4) have "k + 1 \<le> 2 ^ 53" by simp
  then have "real_of_int (k + 1) \<le> real_of_int (2 ^ 53)" by (simp only: of_int_le_iff)
  then have "real_of_int (k + 1) / 2 ^ 53 \<le> real_of_int (2 ^ 53) / 2 ^ 53"
    by (intro divide_right_mono) simp_all
  with False show ?thesis by simp
next
  case True
  from assms(3) have "real_of_int (2 ^ 52) \<le> real_of_int k" by (simp only: of_int_le_iff)
  then have "real_of_int (2 ^ 52) / 2 ^ 53 \<le> real_of_int k / 2 ^ 53"
    by (intro divide_right_mono) simp_all
  with assms(2) have half: "1 / 2 \<le> c" by simp
  define m where "m = rne (c * 2 ^ 53)"
  from double_grid [OF assms(1) half True] have c: "c = of_int m / 2 ^ 53"
    by (simp add: m_def)
  from assms(2) have "real_of_int k / 2 ^ 53 < of_int m / 2 ^ 53" by (simp only: c [symmetric])
  then have "real_of_int k < of_int m" by (simp add: divide_less_cancel)
  then have "k < m" by (simp only: of_int_less_iff)
  then have "k + 1 \<le> m" by simp
  then have "real_of_int (k + 1) \<le> of_int m" by (simp only: of_int_le_iff)
  then have "real_of_int (k + 1) / 2 ^ 53 \<le> of_int m / 2 ^ 53"
    by (intro divide_right_mono) simp_all
  then show ?thesis by (simp only: c [symmetric])
qed

lemma fl_1 [simp]: "fl 1 = 1"
  using fl_eval [of 0 1] by simp

section \<open>The roundings that the examples need\<close>

text \<open>
  The values of \<open>fl\<close> at the literals of the source and at the intermediate results of
  the examples below, each computed from the binade of its argument.
\<close>

lemma generator_fl_0: "fl (37830236869912165 / 288230376151711744) = 4728779608739021 / 36028797018963968"
  using fl_eval [of "- 3" "37830236869912165 / 288230376151711744"] by (simp add: rne_def power_int_minus)

lemma generator_fl_1: "fl (24338891524381998203697223224525 / 162259276829213363391578010288128) = 2702159776422297 / 18014398509481984"
  using fl_eval [of "- 3" "24338891524381998203697223224525 / 162259276829213363391578010288128"] by (simp add: rne_def power_int_minus)

lemma generator_fl_2: "fl (48677783048764001811713999293645 / 324518553658426726783156020576256) = 2702159776422297 / 18014398509481984"
  using fl_eval [of "- 3" "48677783048764001811713999293645 / 324518553658426726783156020576256"] by (simp add: rne_def power_int_minus)

lemma generator_fl_3: "fl (3 / 20) = 5404319552844595 / 36028797018963968"
  using fl_eval [of "- 3" "3 / 20"] by (simp add: rne_def power_int_minus)

lemma generator_fl_4: "fl (7 / 32) = 7 / 32"
  using fl_eval [of "- 3" "7 / 32"] by (simp add: rne_def power_int_minus)

lemma generator_fl_5: "fl (4503599627370495 / 18014398509481984) = 4503599627370495 / 18014398509481984"
  using fl_eval [of "- 3" "4503599627370495 / 18014398509481984"] by (simp add: rne_def power_int_minus)

lemma generator_fl_6: "fl (9007199254740991 / 36028797018963968) = 9007199254740991 / 36028797018963968"
  using fl_eval [of "- 3" "9007199254740991 / 36028797018963968"] by (simp add: rne_def power_int_minus)

lemma generator_fl_7: "fl (1 / 4) = 1 / 4"
  using fl_eval [of "- 2" "1 / 4"] by (simp add: rne_def power_int_minus)

lemma generator_fl_8: "fl (7 / 10) = 3152519739159347 / 4503599627370496"
  using fl_eval [of "- 1" "7 / 10"] by (simp add: rne_def power_int_minus)

lemma generator_fl_9: "fl (3 / 4) = 3 / 4"
  using fl_eval [of "- 1" "3 / 4"] by (simp add: rne_def power_int_minus)

lemma generator_fl_10: "fl (7656119366529843 / 9007199254740992) = 7656119366529843 / 9007199254740992"
  using fl_eval [of "- 1" "7656119366529843 / 9007199254740992"] by (simp add: rne_def power_int_minus)

lemma generator_fl_11: "fl (17 / 20) = 7656119366529843 / 9007199254740992"
  using fl_eval [of "- 1" "17 / 20"] by (simp add: rne_def power_int_minus)

lemma generator_fl_12: "fl (7 / 8) = 7 / 8"
  using fl_eval [of "- 1" "7 / 8"] by (simp add: rne_def power_int_minus)

lemma generator_fl_13: "fl (31 / 32) = 31 / 32"
  using fl_eval [of "- 1" "31 / 32"] by (simp add: rne_def power_int_minus)

lemma generator_fl_14: "fl (35353257074858393 / 36028797018963968) = 4419157134357299 / 4503599627370496"
  using fl_eval [of "- 1" "35353257074858393 / 36028797018963968"] by (simp add: rne_def power_int_minus)

lemma generator_fl_15: "fl (4503599627370495 / 4503599627370496) = 4503599627370495 / 4503599627370496"
  using fl_eval [of "- 1" "4503599627370495 / 4503599627370496"] by (simp add: rne_def power_int_minus)

lemma generator_fl_16: "fl (18014398509481983 / 18014398509481984) = 1"
  using fl_eval [of "- 1" "18014398509481983 / 18014398509481984"] by (simp add: rne_def power_int_minus)

lemma generator_fl_17: "fl (36028797018963967 / 36028797018963968) = 1"
  using fl_eval [of "- 1" "36028797018963967 / 36028797018963968"] by (simp add: rne_def power_int_minus)

lemma generator_fl_18: "fl (1) = 1"
  using fl_eval [of "0" "1"] by (simp add: rne_def power_int_minus)

lemma generator_fl_19: "fl (35 / 8) = 35 / 8"
  using fl_eval [of "2" "35 / 8"] by (simp add: rne_def power_int_minus)

lemma generator_fl_20: "fl (22517998136852475 / 4503599627370496) = 5629499534213119 / 1125899906842624"
  using fl_eval [of "2" "22517998136852475 / 4503599627370496"] by (simp add: rne_def power_int_minus)

lemma generator_fl_21: "fl (45035996273704955 / 9007199254740992) = 5629499534213119 / 1125899906842624"
  using fl_eval [of "2" "45035996273704955 / 9007199254740992"] by (simp add: rne_def power_int_minus)

lemmas generator_fl = generator_fl_0 generator_fl_1 generator_fl_2 generator_fl_3 generator_fl_4 generator_fl_5 generator_fl_6 generator_fl_7 generator_fl_8 generator_fl_9 generator_fl_10 generator_fl_11 generator_fl_12 generator_fl_13 generator_fl_14 generator_fl_15 generator_fl_16 generator_fl_17 generator_fl_18 generator_fl_19 generator_fl_20 generator_fl_21

lemma scene_fl_0: "fl (1622592768292133213579814881635 / 40564819207303340847894502572032) = 5764607523034233 / 144115188075855872"
  using fl_eval [of "- 5" "1622592768292133213579814881635 / 40564819207303340847894502572032"] by (simp add: rne_def power_int_minus)

lemma scene_fl_1: "fl (300239975158033 / 2251799813685248) = 300239975158033 / 2251799813685248"
  using fl_eval [of "- 3" "300239975158033 / 2251799813685248"] by (simp add: rne_def power_int_minus)

lemma scene_fl_2: "fl (5404319552844595 / 36028797018963968) = 5404319552844595 / 36028797018963968"
  using fl_eval [of "- 3" "5404319552844595 / 36028797018963968"] by (simp add: rne_def power_int_minus)

lemma scene_fl_3: "fl (1 / 4) = 1 / 4"
  using fl_eval [of "- 2" "1 / 4"] by (simp add: rne_def power_int_minus)

lemma scene_fl_4: "fl (3 / 10) = 5404319552844595 / 18014398509481984"
  using fl_eval [of "- 2" "3 / 10"] by (simp add: rne_def power_int_minus)

lemma scene_fl_5: "fl (9 / 20) = 8106479329266893 / 18014398509481984"
  using fl_eval [of "- 2" "9 / 20"] by (simp add: rne_def power_int_minus)

lemma scene_fl_6: "fl (1 / 2) = 1 / 2"
  using fl_eval [of "- 1" "1 / 2"] by (simp add: rne_def power_int_minus)

lemma scene_fl_7: "fl (9907919180215091 / 18014398509481984) = 2476979795053773 / 4503599627370496"
  using fl_eval [of "- 1" "9907919180215091 / 18014398509481984"] by (simp add: rne_def power_int_minus)

lemma scene_fl_8: "fl (2476979795053773 / 4503599627370496) = 2476979795053773 / 4503599627370496"
  using fl_eval [of "- 1" "2476979795053773 / 4503599627370496"] by (simp add: rne_def power_int_minus)

lemma scene_fl_9: "fl (13 / 20) = 5854679515581645 / 9007199254740992"
  using fl_eval [of "- 1" "13 / 20"] by (simp add: rne_def power_int_minus)

lemma scene_fl_10: "fl (13386390338410103065273137406935 / 20282409603651670423947251286016) = 5944751508129055 / 9007199254740992"
  using fl_eval [of "- 1" "13386390338410103065273137406935 / 20282409603651670423947251286016"] by (simp add: rne_def power_int_minus)

lemma scene_fl_11: "fl (11936790812345499 / 18014398509481984) = 2984197703086375 / 4503599627370496"
  using fl_eval [of "- 1" "11936790812345499 / 18014398509481984"] by (simp add: rne_def power_int_minus)

lemma scene_fl_12: "fl (7 / 10) = 3152519739159347 / 4503599627370496"
  using fl_eval [of "- 1" "7 / 10"] by (simp add: rne_def power_int_minus)

lemma scene_fl_13: "fl (100880631653099113 / 144115188075855872) = 6305039478318695 / 9007199254740992"
  using fl_eval [of "- 1" "100880631653099113 / 144115188075855872"] by (simp add: rne_def power_int_minus)

lemma scene_fl_14: "fl (3 / 4) = 3 / 4"
  using fl_eval [of "- 1" "3 / 4"] by (simp add: rne_def power_int_minus)

lemma scene_fl_15: "fl (16127557996343625616342236893125 / 20282409603651670423947251286016) = 1790518621851825 / 2251799813685248"
  using fl_eval [of "- 1" "16127557996343625616342236893125 / 20282409603651670423947251286016"] by (simp add: rne_def power_int_minus)

lemma scene_fl_16: "fl (17 / 20) = 7656119366529843 / 9007199254740992"
  using fl_eval [of "- 1" "17 / 20"] by (simp add: rne_def power_int_minus)

lemma scene_fl_17: "fl (35839017769652501846280375881433 / 40564819207303340847894502572032) = 3978930270781833 / 4503599627370496"
  using fl_eval [of "- 1" "35839017769652501846280375881433 / 40564819207303340847894502572032"] by (simp add: rne_def power_int_minus)

lemma scene_fl_18: "fl (9 / 10) = 8106479329266893 / 9007199254740992"
  using fl_eval [of "- 1" "9 / 10"] by (simp add: rne_def power_int_minus)

lemma scene_fl_19: "fl (93 / 100) = 8376695306909123 / 9007199254740992"
  using fl_eval [of "- 1" "93 / 100"] by (simp add: rne_def power_int_minus)

lemma scene_fl_20: "fl (34052617502473795 / 36028797018963968) = 8513154375618449 / 9007199254740992"
  using fl_eval [of "- 1" "34052617502473795 / 36028797018963968"] by (simp add: rne_def power_int_minus)

lemma scene_fl_21: "fl (19 / 20) = 4278419646001971 / 4503599627370496"
  using fl_eval [of "- 1" "19 / 20"] by (simp add: rne_def power_int_minus)

lemma scene_fl_22: "fl (1) = 1"
  using fl_eval [of "0" "1"] by (simp add: rne_def power_int_minus)

lemma scene_fl_23: "fl (5404319552844595 / 4503599627370496) = 5404319552844595 / 4503599627370496"
  using fl_eval [of "0" "5404319552844595 / 4503599627370496"] by (simp add: rne_def power_int_minus)

lemma scene_fl_24: "fl (6 / 5) = 5404319552844595 / 4503599627370496"
  using fl_eval [of "0" "6 / 5"] by (simp add: rne_def power_int_minus)

lemma scene_fl_25: "fl (15) = 15"
  using fl_eval [of "3" "15"] by (simp add: rne_def power_int_minus)

lemma scene_fl_26: "fl (35 / 2) = 35 / 2"
  using fl_eval [of "4" "35 / 2"] by (simp add: rne_def power_int_minus)

lemma scene_fl_27: "fl (30) = 30"
  using fl_eval [of "4" "30"] by (simp add: rne_def power_int_minus)

lemma scene_fl_28: "fl (35) = 35"
  using fl_eval [of "5" "35"] by (simp add: rne_def power_int_minus)

lemma scene_fl_29: "fl (50) = 50"
  using fl_eval [of "5" "50"] by (simp add: rne_def power_int_minus)

lemma scene_fl_30: "fl (90) = 90"
  using fl_eval [of "6" "90"] by (simp add: rne_def power_int_minus)

lemma scene_fl_31: "fl (450) = 450"
  using fl_eval [of "8" "450"] by (simp add: rne_def power_int_minus)

lemma scene_fl_32: "fl (500) = 500"
  using fl_eval [of "8" "500"] by (simp add: rne_def power_int_minus)

lemmas scene_fl = scene_fl_0 scene_fl_1 scene_fl_2 scene_fl_3 scene_fl_4 scene_fl_5 scene_fl_6 scene_fl_7 scene_fl_8 scene_fl_9 scene_fl_10 scene_fl_11 scene_fl_12 scene_fl_13 scene_fl_14 scene_fl_15 scene_fl_16 scene_fl_17 scene_fl_18 scene_fl_19 scene_fl_20 scene_fl_21 scene_fl_22 scene_fl_23 scene_fl_24 scene_fl_25 scene_fl_26 scene_fl_27 scene_fl_28 scene_fl_29 scene_fl_30 scene_fl_31 scene_fl_32

lemma store_fl_0: "fl (3 / 4) = 3 / 4"
  using fl_eval [of "- 1" "3 / 4"] by (simp add: rne_def power_int_minus)

lemma store_fl_1: "fl (106 / 125) = 7638104968020361 / 9007199254740992"
  using fl_eval [of "- 1" "106 / 125"] by (simp add: rne_def power_int_minus)

lemmas store_fl = store_fl_0 store_fl_1

lemma aggregate_fl_0: "fl (1 / 10) = 3602879701896397 / 36028797018963968"
  using fl_eval [of "- 4" "1 / 10"] by (simp add: rne_def power_int_minus)

lemma aggregate_fl_1: "fl (799388933858263 / 1125899906842624) = 799388933858263 / 1125899906842624"
  using fl_eval [of "- 1" "799388933858263 / 1125899906842624"] by (simp add: rne_def power_int_minus)

lemma aggregate_fl_2: "fl (71 / 100) = 799388933858263 / 1125899906842624"
  using fl_eval [of "- 1" "71 / 100"] by (simp add: rne_def power_int_minus)

lemma aggregate_fl_3: "fl (3535325707485839 / 4503599627370496) = 3535325707485839 / 4503599627370496"
  using fl_eval [of "- 1" "3535325707485839 / 4503599627370496"] by (simp add: rne_def power_int_minus)

lemma aggregate_fl_4: "fl (43 / 50) = 7746191359077253 / 9007199254740992"
  using fl_eval [of "- 1" "43 / 50"] by (simp add: rne_def power_int_minus)

lemma aggregate_fl_5: "fl (31885485361783109 / 36028797018963968) = 7971371340445777 / 9007199254740992"
  using fl_eval [of "- 1" "31885485361783109 / 36028797018963968"] by (simp add: rne_def power_int_minus)

lemma aggregate_fl_6: "fl (14141302829943357 / 9007199254740992) = 3535325707485839 / 2251799813685248"
  using fl_eval [of "0" "14141302829943357 / 9007199254740992"] by (simp add: rne_def power_int_minus)

lemmas aggregate_fl = aggregate_fl_0 aggregate_fl_1 aggregate_fl_2 aggregate_fl_3 aggregate_fl_4 aggregate_fl_5 aggregate_fl_6

section \<open>Rounding errors\<close>

text \<open>
  Rounding moves a number by at most half a unit in the last place: by at most
  \<open>2\<^sup>k\<^sup>-\<^sup>5\<^sup>4\<close> below \<open>2\<^sup>k\<close>.
\<close>

lemma rne_error: "\<bar>of_int (rne y) - y\<bar> \<le> 1 / 2"
proof -
  have "of_int \<lfloor>y\<rfloor> \<le> y" "y < of_int \<lfloor>y\<rfloor> + 1" by linarith+
  then show ?thesis by (auto simp: rne_def Let_def abs_le_iff)
qed

lemma fl_error_ulp: "\<bar>fl x - x\<bar> \<le> 2 powi ulp_exponent x / 2"
proof (cases "x = 0")
  case True
  then show ?thesis by simp
next
  case False
  let ?u = "ulp_exponent x"
  have "fl x - x = (of_int (rne (x / 2 powi ?u)) - x / 2 powi ?u) * 2 powi ?u"
    using False by (simp add: fl_def left_diff_distrib)
  then have "\<bar>fl x - x\<bar> = \<bar>of_int (rne (x / 2 powi ?u)) - x / 2 powi ?u\<bar> * 2 powi ?u"
    by (simp add: abs_mult)
  also have "\<dots> \<le> 1 / 2 * 2 powi ?u"
    by (intro mult_right_mono rne_error) simp
  finally show ?thesis by simp
qed

lemma fl_error_below:
  assumes "\<bar>x\<bar> < 2 powi k" "- 1021 \<le> k"
  shows "\<bar>fl x - x\<bar> \<le> 2 powi (k - 54)"
proof (cases "x = 0")
  case True
  then show ?thesis by simp
next
  case False
  from binade [OF False] assms(1) have "(2::real) powi \<lfloor>log 2 \<bar>x\<bar>\<rfloor> < 2 powi k" by linarith
  have "\<lfloor>log 2 \<bar>x\<bar>\<rfloor> < k"
  proof (rule ccontr)
    assume "\<not> \<lfloor>log 2 \<bar>x\<bar>\<rfloor> < k"
    then have "(2::real) powi k \<le> 2 powi \<lfloor>log 2 \<bar>x\<bar>\<rfloor>"
      by (intro power_int_increasing) simp_all
    with \<open>2 powi \<lfloor>log 2 \<bar>x\<bar>\<rfloor> < 2 powi k\<close> show False by simp
  qed
  with assms(2) have "ulp_exponent x \<le> k - 53" by (simp add: ulp_exponent_def)
  then have "(2::real) powi ulp_exponent x \<le> 2 powi (k - 53)"
    by (intro power_int_increasing) simp_all
  then have "(2::real) powi ulp_exponent x / 2 \<le> 2 powi (k - 53) / 2" by simp
  also have "(2::real) powi (k - 53) / 2 = 2 powi (k - 54)"
    by (simp add: power_int_diff)
  finally show ?thesis using fl_error_ulp [of x] by linarith
qed

lemma fl_error_2: "\<bar>x\<bar> < 2 \<Longrightarrow> \<bar>fl x - x\<bar> \<le> 1 / 2 ^ 53"
  using fl_error_below [of x 1] by (simp add: power_int_minus)

lemma fl_nonpos: "x \<le> 0 \<Longrightarrow> fl x \<le> 0"
proof (cases "x = 0")
  case True
  then show ?thesis by simp
next
  case False
  assume "x \<le> 0"
  then have "x / 2 powi ulp_exponent x \<le> 0" by (simp add: divide_nonpos_pos)
  then have "rne (x / 2 powi ulp_exponent x) \<le> rne 0" by (rule rne_mono)
  then have "real_of_int (rne (x / 2 powi ulp_exponent x)) \<le> 0" by simp
  then have "real_of_int (rne (x / 2 powi ulp_exponent x)) * 2 powi ulp_exponent x \<le> 0"
    by (intro mult_nonpos_nonneg) simp_all
  with False show ?thesis by (simp add: fl_def)
qed

lemma fl_unit:
  assumes "0 \<le> x" "x \<le> 1"
  shows "0 \<le> fl x \<and> fl x \<le> 1 \<and> \<bar>fl x - x\<bar> \<le> 1 / 2 ^ 53"
proof -
  from assms have "\<bar>x\<bar> < 2" by simp
  from fl_error_2 [OF this] fl_nonneg [OF assms(1)] fl_mono [OF assms] show ?thesis by simp
qed

lemma product_error:
  fixes a b A B :: real
  shows "\<bar>a * b - A * B\<bar> \<le> \<bar>a - A\<bar> * \<bar>b\<bar> + \<bar>A\<bar> * \<bar>b - B\<bar>"
proof -
  have "a * b - A * B = (a - A) * b + A * (b - B)" by (simp add: algebra_simps)
  then have "\<bar>a * b - A * B\<bar> \<le> \<bar>(a - A) * b\<bar> + \<bar>A * (b - B)\<bar>" by (simp only: abs_triangle_ineq)
  then show ?thesis by (simp only: abs_mult)
qed

lemma min_error: "\<bar>min 1 a - min 1 b\<bar> \<le> \<bar>a - b\<bar>" for a b :: real
  unfolding min_def by (cases "1 \<le> a"; cases "1 \<le> b"; simp; linarith)

section \<open>The distance of two boxes\<close>








section \<open>Thresholds\<close>

text \<open>
  A double exceeds the double nearest to 0.7 exactly when it exceeds 0.7, and likewise for
  0.85 and 0.75; 0.65 lies just below the double nearest to it.
\<close>

lemma above_seven_tenths:
  assumes "is_double r" "r \<le> 1"
  shows "lit (7 / 10) < r \<longleftrightarrow> 7 / 10 < r"
proof
  assume "7 / 10 < r"
  then show "lit (7 / 10) < r" by (simp add: lit_def scene_fl)
next
  assume gt: "lit (7 / 10) < r"
  show "7 / 10 < r"
  proof (cases "r = 1")
    case True
    then show ?thesis by simp
  next
    case False
    with assms(2) have lt: "r < 1" by simp
    from gt have half: "1 / 2 \<le> r" by (simp add: lit_def scene_fl)
    define k where "k = rne (r * 2 ^ 53)"
    from double_grid [OF assms(1) half lt] have r: "r = of_int k / 2 ^ 53"
      by (simp add: k_def)
    from gt have "real_of_int 6305039478318694 / 2 ^ 53 < of_int k / 2 ^ 53"
      by (simp add: lit_def scene_fl r)
    then have "real_of_int 6305039478318694 < of_int k"
      by (simp add: divide_less_cancel)
    then have "6305039478318694 < k" by (simp only: of_int_less_iff)
    then have "6305039478318695 \<le> k" by simp
    then have "real_of_int 6305039478318695 \<le> of_int k" by (simp only: of_int_le_iff)
    then have "real_of_int 6305039478318695 / 2 ^ 53 \<le> of_int k / 2 ^ 53"
      by (intro divide_right_mono) simp_all
    with r show "7 / 10 < r" by simp
  qed
qed

lemma severity_literals:
  assumes "is_double c"
  shows "(c > 85 / 100 \<longleftrightarrow> c > lit (85 / 100)) \<and>
         (c > 75 / 100 \<longleftrightarrow> c > lit (75 / 100)) \<and>
         (c > 65 / 100 \<longleftrightarrow> c \<ge> lit (65 / 100))"
proof (intro conjI iffI)
  assume "c > 85 / 100"
  then show "c > lit (85 / 100)" by (simp add: lit_def scene_fl)
next
  assume "c > lit (85 / 100)"
  then have "real_of_int 7656119366529843 / 2 ^ 53 < c" by (simp add: lit_def scene_fl)
  from next_double [OF assms this] have "real_of_int (7656119366529843 + 1) / 2 ^ 53 \<le> c"
    by simp
  then show "c > 85 / 100" by simp
next
  assume "c > 75 / 100"
  then show "c > lit (75 / 100)" by (simp add: lit_def scene_fl)
next
  assume "c > lit (75 / 100)"
  then show "c > 75 / 100" by (simp add: lit_def scene_fl)
next
  assume "c > 65 / 100"
  then have "real_of_int 5854679515581644 / 2 ^ 53 < c" by simp
  from next_double [OF assms this] have "real_of_int (5854679515581644 + 1) / 2 ^ 53 \<le> c"
    by simp
  then show "c \<ge> lit (65 / 100)" by (simp add: lit_def scene_fl)
next
  assume "c \<ge> lit (65 / 100)"
  then show "c > 65 / 100" by (simp add: lit_def scene_fl)
qed





section \<open>The nested loops visit the index pairs in order\<close>







section \<open>One pair at a time\<close>











text \<open>
  The formula stays in \<open>[0, 1]\<close>, rounded or not, and rounding moves it by at most
  \<open>2\<^sup>-\<^sup>4\<^sup>9\<close>.
\<close>

lemma confidence_formula_d_range:
  assumes "0 \<le> c1" "0 \<le> c2" "0 \<le> U"
  shows "0 \<le> confidence_formula_d c1 c2 d U \<and> confidence_formula_d c1 c2 d U \<le> 1"
proof -
  have "0 \<le> mul_d c1 c2" using assms(1,2) by (simp add: mul_d_def fl_nonneg)
  then have "0 \<le> mul_d (mul_d c1 c2) (max 0 (sub_d 1 (div_d d 200)))"
    by (simp add: mul_d_def fl_nonneg)
  moreover have "0 \<le> lit (12 / 10)" by (simp add: lit_def fl_nonneg)
  ultimately have "0 \<le> mul_d (mul_d (mul_d c1 c2) (max 0 (sub_d 1 (div_d d 200)))) (lit (12 / 10))"
    unfolding mul_d_def [of _ "lit (12 / 10)"] by (intro fl_nonneg mult_nonneg_nonneg)
  with assms(3) have "0 \<le> add_d (mul_d (mul_d (mul_d c1 c2) (max 0 (sub_d 1 (div_d d 200))))
      (lit (12 / 10))) U"
    unfolding add_d_def by (intro fl_nonneg add_nonneg_nonneg)
  then show ?thesis unfolding confidence_formula_d_def by simp
qed

lemma confidence_formula_range:
  assumes "0 \<le> c1" "0 \<le> c2" "0 \<le> U"
  shows "0 \<le> confidence_formula c1 c2 d U \<and> confidence_formula c1 c2 d U \<le> 1"
proof -
  have "0 \<le> c1 * c2 * max 0 (1 - d / 200) * (12 / 10)" using assms(1,2) by simp
  with assms(3) have "0 \<le> c1 * c2 * max 0 (1 - d / 200) * (12 / 10) + U" by linarith
  then show ?thesis unfolding confidence_formula_def by simp
qed

lemma distance_factor_error:
  assumes "0 \<le> d"
  shows "0 \<le> max 0 (sub_d 1 (div_d d 200)) \<and> max 0 (sub_d 1 (div_d d 200)) \<le> 1 \<and>
         \<bar>max 0 (sub_d 1 (div_d d 200)) - max 0 (1 - d / 200)\<bar> \<le> 2 / 2 ^ 53"
proof (cases "d < 200")
  case True
  with assms have Q: "0 \<le> d / 200" "d / 200 \<le> 1" by simp_all
  from fl_unit [OF Q] have q: "0 \<le> fl (d / 200)" "fl (d / 200) \<le> 1"
    "\<bar>fl (d / 200) - d / 200\<bar> \<le> 1 / 2 ^ 53" by blast+
  from q(1,2) have T: "0 \<le> 1 - fl (d / 200)" "1 - fl (d / 200) \<le> 1" by simp_all
  from fl_unit [OF T] have t: "0 \<le> fl (1 - fl (d / 200))" "fl (1 - fl (d / 200)) \<le> 1"
    "\<bar>fl (1 - fl (d / 200)) - (1 - fl (d / 200))\<bar> \<le> 1 / 2 ^ 53" by blast+
  from t(3) q(3) have "\<bar>fl (1 - fl (d / 200)) - (1 - d / 200)\<bar> \<le> 2 / 2 ^ 53" by linarith
  with t(1,2) Q show ?thesis by (simp add: sub_d_def div_d_def max_def)
next
  case False
  then have "1 \<le> d / 200" by simp
  then have "fl 1 \<le> fl (d / 200)" by (intro fl_mono) simp_all
  then have "1 - fl (d / 200) \<le> 0" by simp
  then have "fl (1 - fl (d / 200)) \<le> 0" by (rule fl_nonpos)
  with False show ?thesis by (simp add: sub_d_def div_d_def max_def)
qed

lemma confidence_formula_error:
  assumes "0 \<le> c1" "c1 \<le> 1" "0 \<le> c2" "c2 \<le> 1" "0 \<le> d" "0 \<le> U" "U \<le> 3 / 10"
  shows "\<bar>confidence_formula_d c1 c2 d U - confidence_formula c1 c2 d U\<bar> \<le> 1 / 2 ^ 49"
proof -
  define \<eta> :: real where "\<eta> = 1 / 2 ^ 53"
  define P where "P = c1 * c2"
  define p where "p = fl P"
  define DF where "DF = max 0 (1 - d / 200)"
  define df where "df = max 0 (sub_d 1 (div_d d 200))"
  define L :: real where "L = 5404319552844595 / 4503599627370496"
  define m1 where "m1 = fl (p * df)"
  define m2 where "m2 = fl (m1 * L)"
  have P: "0 \<le> P" "P \<le> 1" using assms(1-4) by (simp_all add: P_def mult_le_one)
  from fl_unit [OF P] have p: "0 \<le> p" "p \<le> 1" "\<bar>p - P\<bar> \<le> \<eta>"
    by (simp_all add: p_def \<eta>_def)
  from distance_factor_error [OF assms(5)] have df: "0 \<le> df" "df \<le> 1" "\<bar>df - DF\<bar> \<le> 2 * \<eta>"
    by (simp_all add: df_def DF_def \<eta>_def)
  have DF: "0 \<le> DF" "DF \<le> 1" using assms(5) by (simp_all add: DF_def)
  have pd: "0 \<le> p * df" "p * df \<le> 1" using p df by (simp_all add: mult_le_one)
  have "\<bar>p * df - P * DF\<bar> \<le> \<bar>p - P\<bar> * \<bar>df\<bar> + \<bar>P\<bar> * \<bar>df - DF\<bar>" by (rule product_error)
  also have "\<dots> \<le> \<eta> * 1 + 1 * (2 * \<eta>)"
    using p df P by (intro add_mono mult_mono) simp_all
  finally have e1: "\<bar>p * df - P * DF\<bar> \<le> 3 * \<eta>" by simp
  from fl_unit [OF pd] have m1: "0 \<le> m1" "m1 \<le> 1" "\<bar>m1 - p * df\<bar> \<le> \<eta>"
    by (simp_all add: m1_def \<eta>_def)
  from m1(3) e1 have e2: "\<bar>m1 - P * DF\<bar> \<le> 4 * \<eta>" by linarith
  have L: "0 \<le> L" "L \<le> 13 / 10" "\<bar>L - 12 / 10\<bar> \<le> \<eta>" by (simp_all add: L_def \<eta>_def)
  have PD: "0 \<le> P * DF" "P * DF \<le> 1" using P DF by (simp_all add: mult_le_one)
  have "\<bar>m1 * L - P * DF * (12 / 10)\<bar> \<le> \<bar>m1 - P * DF\<bar> * \<bar>L\<bar> + \<bar>P * DF\<bar> * \<bar>L - 12 / 10\<bar>"
    by (rule product_error)
  also have "\<dots> \<le> 4 * \<eta> * (13 / 10) + 1 * \<eta>"
    using e2 L PD by (intro add_mono mult_mono) simp_all
  finally have e3: "\<bar>m1 * L - P * DF * (12 / 10)\<bar> \<le> 31 / 5 * \<eta>" by simp
  have mL: "0 \<le> m1 * L" "m1 * L \<le> 13 / 10"
    using m1 L mult_mono [of m1 1 L "13 / 10"] by simp_all
  then have "\<bar>m1 * L\<bar> < 2" by simp
  from fl_error_2 [OF this] have r2: "\<bar>m2 - m1 * L\<bar> \<le> \<eta>" by (simp add: m2_def \<eta>_def)
  with e3 have e4: "\<bar>m2 - P * DF * (12 / 10)\<bar> \<le> 36 / 5 * \<eta>" by linarith
  have m2: "0 \<le> m2" "m2 \<le> 14 / 10"
  proof -
    show "0 \<le> m2" unfolding m2_def using mL(1) by (rule fl_nonneg)
    from r2 mL(2) have "m2 \<le> 13 / 10 + \<eta>" by linarith
    then show "m2 \<le> 14 / 10" by (simp add: \<eta>_def)
  qed
  with assms(6,7) have "\<bar>m2 + U\<bar> < 2" by simp
  from fl_error_2 [OF this] have "\<bar>fl (m2 + U) - (m2 + U)\<bar> \<le> \<eta>" by (simp add: \<eta>_def)
  with e4 have e5: "\<bar>fl (m2 + U) - (P * DF * (12 / 10) + U)\<bar> \<le> 41 / 5 * \<eta>" by linarith
  have "\<bar>min 1 (fl (m2 + U)) - min 1 (P * DF * (12 / 10) + U)\<bar> \<le>
        \<bar>fl (m2 + U) - (P * DF * (12 / 10) + U)\<bar>"
    by (rule min_error)
  with e5 have "\<bar>min 1 (fl (m2 + U)) - min 1 (P * DF * (12 / 10) + U)\<bar> \<le> 41 / 5 * \<eta>"
    by linarith
  moreover have "41 / 5 * \<eta> \<le> 1 / 2 ^ 49" by (simp add: \<eta>_def)
  moreover have "confidence_formula_d c1 c2 d U = min 1 (fl (m2 + U))"
    unfolding confidence_formula_d_def add_d_def mul_d_def m2_def m1_def p_def P_def df_def L_def
    by (simp add: lit_def scene_fl)
  moreover have "confidence_formula c1 c2 d U = min 1 (P * DF * (12 / 10) + U)"
    by (simp add: confidence_formula_def P_def DF_def)
  ultimately show ?thesis by linarith
qed

section \<open>Evaluating the scenes\<close>

















section \<open>The generator, draw by draw\<close>

lemma unit_times_5:
  assumes "is_double r" "0 \<le> r" "r < 1"
  shows "0 \<le> \<lfloor>mul_d r 5\<rfloor> \<and> \<lfloor>mul_d r 5\<rfloor> < 5"
proof -
  from double_below_one [OF assms(1,3)] have "r * 5 \<le> (1 - 1 / 2 ^ 53) * 5" by simp
  with assms(2) have "fl (r * 5) \<le> fl ((1 - 1 / 2 ^ 53) * 5)" by (intro fl_mono) simp_all
  also have "\<dots> < 5" by (simp add: generator_fl)
  finally have "mul_d r 5 < 5" by (simp add: mul_d_def)
  moreover have "0 \<le> mul_d r 5" using assms(2) by (simp add: mul_d_def fl_nonneg)
  ultimately show ?thesis by (simp add: floor_less_iff)
qed

lemma js_index_vehicle_classes:
  assumes "is_double r" "0 \<le> r" "r < 1"
  shows "\<exists>c. js_index vehicle_classes \<lfloor>mul_d r (real (length vehicle_classes))\<rfloor> = Some c \<and>
             c \<in> set vehicle_classes"
proof -
  have len: "length vehicle_classes = 5" by (simp add: vehicle_classes_def)
  from unit_times_5 [OF assms] have i: "0 \<le> \<lfloor>mul_d r 5\<rfloor>" "\<lfloor>mul_d r 5\<rfloor> < 5"
    by blast+
  then have "nat \<lfloor>mul_d r 5\<rfloor> < 5" by linarith
  with i have idx: "0 \<le> \<lfloor>mul_d r 5\<rfloor>" "nat \<lfloor>mul_d r 5\<rfloor> < length vehicle_classes"
    by (simp_all only: len)
  then have "js_index vehicle_classes \<lfloor>mul_d r 5\<rfloor> = Some (vehicle_classes ! nat \<lfloor>mul_d r 5\<rfloor>)"
    by (simp add: js_index_def)
  with nth_mem [OF idx(2)] show ?thesis by (simp add: len)
qed

lemma vehicle_confidence_range:
  assumes "is_double r" "0 \<le> r" "r < 1"
  shows "lit (85 / 100) \<le> add_d (lit (85 / 100)) (mul_d r (lit (15 / 100))) \<and>
         add_d (lit (85 / 100)) (mul_d r (lit (15 / 100))) \<le> 1"
proof -
  define a :: real where "a = 7656119366529843 / 9007199254740992"
  define b :: real where "b = 5404319552844595 / 36028797018963968"
  have la: "lit (85 / 100) = a" and lb: "lit (15 / 100) = b"
    by (simp_all add: lit_def a_def b_def generator_fl)
  have fa: "fl a = a" by (simp add: a_def generator_fl)
  have m0: "0 \<le> fl (r * b)" using assms(2) by (intro fl_nonneg) (simp add: b_def)
  have "r * b \<le> (1 - 1 / 2 ^ 53) * b"
    using double_below_one [OF assms(1,3)] by (intro mult_right_mono) (simp_all add: b_def)
  then have "fl (r * b) \<le> fl ((1 - 1 / 2 ^ 53) * b)"
    using assms(2) by (intro fl_mono) (simp_all add: b_def)
  then have "a + fl (r * b) \<le> a + fl ((1 - 1 / 2 ^ 53) * b)" by simp
  then have "fl (a + fl (r * b)) \<le> fl (a + fl ((1 - 1 / 2 ^ 53) * b))"
    using m0 by (intro fl_mono) (simp_all add: a_def)
  also have "fl (a + fl ((1 - 1 / 2 ^ 53) * b)) = 1"
    by (simp add: a_def b_def generator_fl)
  finally have up: "fl (a + fl (r * b)) \<le> 1" .
  have "fl a \<le> fl (a + fl (r * b))" using m0 by (intro fl_mono) (simp_all add: a_def)
  with fa have lo: "a \<le> fl (a + fl (r * b))" by simp
  from lo up show ?thesis unfolding la lb add_d_def mul_d_def by blast
qed

lemma person_confidence_range:
  assumes "is_double r" "0 \<le> r" "r < 1"
  shows "3 / 4 \<le> add_d (lit (75 / 100)) (mul_d r (lit (25 / 100))) \<and>
         add_d (lit (75 / 100)) (mul_d r (lit (25 / 100))) \<le> 1"
proof -
  have la: "lit (75 / 100) = 3 / 4" and lb: "lit (25 / 100) = 1 / 4"
    by (simp_all add: lit_def generator_fl)
  have m0: "0 \<le> fl (r * (1 / 4))" using assms(2) by (intro fl_nonneg) simp
  have "r * (1 / 4) \<le> (1 - 1 / 2 ^ 53) * (1 / 4)"
    using double_below_one [OF assms(1,3)] by (intro mult_right_mono) simp_all
  then have "fl (r * (1 / 4)) \<le> fl ((1 - 1 / 2 ^ 53) * (1 / 4))"
    using assms(2) by (intro fl_mono) simp_all
  then have "3 / 4 + fl (r * (1 / 4)) \<le> 3 / 4 + fl ((1 - 1 / 2 ^ 53) * (1 / 4))" by simp
  then have "fl (3 / 4 + fl (r * (1 / 4))) \<le> fl (3 / 4 + fl ((1 - 1 / 2 ^ 53) * (1 / 4)))"
    using m0 by (intro fl_mono) simp_all
  also have "fl (3 / 4 + fl ((1 - 1 / 2 ^ 53) * (1 / 4))) = 1"
    by (simp add: generator_fl)
  finally have up: "fl (3 / 4 + fl (r * (1 / 4))) \<le> 1" .
  have "fl (3 / 4) \<le> fl (3 / 4 + fl (r * (1 / 4)))" using m0 by (intro fl_mono) simp_all
  then have lo: "3 / 4 \<le> fl (3 / 4 + fl (r * (1 / 4)))" by (simp add: generator_fl)
  from lo up show ?thesis unfolding la lb add_d_def mul_d_def by blast
qed

lemma vehicle_detection_props:
  assumes "unit_draws w"
  shows "generated_vehicle (fst (vehicle_detection i w)) \<and>
         det_confidence (fst (vehicle_detection i w)) =
           add_d (lit (85 / 100)) (mul_d (draws w 1) (lit (15 / 100))) \<and>
         draws (snd (vehicle_detection i w)) = (\<lambda>n. draws w (n + 6))"
proof -
  from assms have r0: "is_double (draws w 0)" "0 \<le> draws w 0" "draws w 0 < 1"
    and r1: "is_double (draws w 1)" "0 \<le> draws w 1" "draws w 1 < 1"
    by (simp_all add: unit_draws_def)
  from js_index_vehicle_classes [OF r0] obtain c where
    c: "js_index vehicle_classes \<lfloor>mul_d (draws w 0) (real (length vehicle_classes))\<rfloor> = Some c"
       "c \<in> set vehicle_classes"
    by blast
  have conf: "det_confidence (fst (vehicle_detection i w)) =
           add_d (lit (85 / 100)) (mul_d (draws w 1) (lit (15 / 100)))"
    by (simp add: vehicle_detection_def Math_random_def Date_now_def Let_def)
  have cls: "det_class (fst (vehicle_detection i w)) = Some c"
    using c(1) by (simp add: vehicle_detection_def Math_random_def Date_now_def Let_def)
  have dr: "draws (snd (vehicle_detection i w)) = (\<lambda>n. draws w (n + 6))"
    by (simp add: vehicle_detection_def Math_random_def Date_now_def Let_def numeral_eq_Suc)
  from cls c(2) have "is_vehicle (fst (vehicle_detection i w))" by (simp add: is_vehicle_def)
  with vehicle_confidence_range [OF r1] conf dr show ?thesis
    by (simp only: generated_vehicle_def)
qed

lemma unit_draws_shift: "unit_draws w \<Longrightarrow> draws w' = (\<lambda>n. draws w (n + k)) \<Longrightarrow> unit_draws w'"
  by (simp add: unit_draws_def)

lemma vehicle_loop:
  assumes "unit_draws w"
  shows "\<exists>vs w'. fold push_vehicle [0..<n] ([], w) = (vs, w') \<and> length vs = n \<and>
           (\<forall>v\<in>set vs. generated_vehicle v) \<and>
           map det_confidence vs =
             map (\<lambda>k. add_d (lit (85 / 100)) (mul_d (draws w (1 + 6 * k)) (lit (15 / 100)))) [0..<n] \<and>
           draws w' = (\<lambda>k. draws w (k + 6 * n))"
proof (induction n)
  case 0
  show ?case by simp
next
  case (Suc n)
  then obtain vs w' where st: "fold push_vehicle [0..<n] ([], w) = (vs, w')"
    and len: "length vs = n" and good: "\<forall>v\<in>set vs. generated_vehicle v"
    and cf: "map det_confidence vs =
             map (\<lambda>k. add_d (lit (85 / 100)) (mul_d (draws w (1 + 6 * k)) (lit (15 / 100)))) [0..<n]"
    and dr: "draws w' = (\<lambda>k. draws w (k + 6 * n))"
    by blast
  have u: "unit_draws w'" using assms dr by (rule unit_draws_shift)
  obtain d w'' where vd: "vehicle_detection n w' = (d, w'')" by (cases "vehicle_detection n w'")
  with vehicle_detection_props [OF u, of n]
  have gd: "generated_vehicle d"
    and cd: "det_confidence d = add_d (lit (85 / 100)) (mul_d (draws w' 1) (lit (15 / 100)))"
    and dr2: "draws w'' = (\<lambda>k. draws w' (k + 6))" by simp_all
  have cd': "det_confidence d = add_d (lit (85 / 100)) (mul_d (draws w (1 + 6 * n)) (lit (15 / 100)))"
    by (simp only: cd dr)
  have "fold push_vehicle [0..<Suc n] ([], w) = (vs @ [d], w'')"
    by (simp add: st push_vehicle_def vd)
  moreover have "draws w'' = (\<lambda>k. draws w (k + 6 * Suc n))"
    by (simp add: dr2 dr add.assoc)
  moreover have "map det_confidence (vs @ [d]) =
      map (\<lambda>k. add_d (lit (85 / 100)) (mul_d (draws w (1 + 6 * k)) (lit (15 / 100)))) [0..<Suc n]"
    by (simp only: map_append cf upt_Suc_append [OF le0] list.map cd')
  ultimately show ?case using len good gd by simp
qed

lemma person_detection_props:
  assumes "is_double (draws w 0)" "0 \<le> draws w 0" "draws w 0 < 1"
  shows "det_class (fst (person_detection w)) = Some ''person'' \<and>
         det_confidence (fst (person_detection w)) =
           add_d (lit (75 / 100)) (mul_d (draws w 0) (lit (25 / 100))) \<and>
         3 / 4 \<le> det_confidence (fst (person_detection w)) \<and>
         det_confidence (fst (person_detection w)) \<le> 1"
proof -
  have c: "det_confidence (fst (person_detection w)) =
           add_d (lit (75 / 100)) (mul_d (draws w 0) (lit (25 / 100)))"
    and k: "det_class (fst (person_detection w)) = Some ''person''"
    by (simp_all add: person_detection_def Math_random_def Date_now_def Let_def)
  from person_confidence_range [OF assms] c k show ?thesis by (simp only:)
qed

lemma performObjectDetection_run:
  assumes "unit_draws w"
  shows "\<exists>vs ps w'. performObjectDetection fd w = (vs @ ps, w') \<and>
      length vs = nat \<lfloor>mul_d (draws w 0) 5\<rfloor> + 2 \<and> 2 \<le> length vs \<and> length vs \<le> 6 \<and>
      (\<forall>v\<in>set vs. generated_vehicle v) \<and>
      map det_confidence vs =
        map (\<lambda>k. add_d (lit (85 / 100)) (mul_d (draws w (2 + 6 * k)) (lit (15 / 100))))
          [0..<length vs] \<and>
      (if draws w (1 + 6 * length vs) > lit (7 / 10)
       then \<exists>p. ps = [p] \<and> det_class p = Some ''person'' \<and>
                det_confidence p =
                  add_d (lit (75 / 100)) (mul_d (draws w (2 + 6 * length vs)) (lit (25 / 100))) \<and>
                3 / 4 \<le> det_confidence p \<and> det_confidence p \<le> 1
       else ps = [])"
proof -
  define n where "n = nat (\<lfloor>mul_d (draws w 0) 5\<rfloor> + 2)"
  define w0 where "w0 = w\<lparr>draws := (\<lambda>k. draws w (Suc k))\<rparr>"
  from assms have r0: "is_double (draws w 0)" "0 \<le> draws w 0" "draws w 0 < 1"
    by (simp_all add: unit_draws_def)
  from unit_times_5 [OF r0] have f0: "0 \<le> \<lfloor>mul_d (draws w 0) 5\<rfloor>"
    and f5: "\<lfloor>mul_d (draws w 0) 5\<rfloor> < 5" by blast+
  have n_eq: "n = nat \<lfloor>mul_d (draws w 0) 5\<rfloor> + 2" using f0 unfolding n_def by linarith
  have n_bounds: "2 \<le> n" "n \<le> 6" using f0 f5 n_eq by linarith+
  have u0: "unit_draws w0" using assms by (simp add: unit_draws_def w0_def)
  from vehicle_loop [OF u0, of n] obtain vs w1 where
    loop: "fold push_vehicle [0..<n] ([], w0) = (vs, w1)" and len: "length vs = n"
    and good: "\<forall>v\<in>set vs. generated_vehicle v"
    and cf: "map det_confidence vs =
             map (\<lambda>k. add_d (lit (85 / 100)) (mul_d (draws w0 (1 + 6 * k)) (lit (15 / 100)))) [0..<n]"
    and dr: "draws w1 = (\<lambda>k. draws w0 (k + 6 * n))"
    by blast
  have rp: "draws w1 0 = draws w (1 + 6 * n)" by (simp add: dr w0_def)
  define w2 where "w2 = w1\<lparr>draws := (\<lambda>k. draws w1 (Suc k))\<rparr>"
  have d2: "draws w2 0 = draws w (2 + 6 * n)" by (simp add: w2_def dr w0_def)
  have u2: "is_double (draws w2 0)" "0 \<le> draws w2 0" "draws w2 0 < 1"
    using assms by (simp_all add: d2 unit_draws_def)
  have body: "performObjectDetection fd w =
     (if draws w (1 + 6 * n) > lit (7 / 10)
      then (vs @ [fst (person_detection w2)], snd (person_detection w2))
      else (vs @ [], w2))"
    unfolding performObjectDetection_def Math_random_def Let_def
    by (simp add: n_def [symmetric] w0_def [symmetric] loop rp w2_def [symmetric]
        split_beta del: upt_Suc)
  define ps where
    "ps = (if draws w (1 + 6 * n) > lit (7 / 10) then [fst (person_detection w2)] else [])"
  define wf where
    "wf = (if draws w (1 + 6 * n) > lit (7 / 10) then snd (person_detection w2) else w2)"
  have res: "performObjectDetection fd w = (vs @ ps, wf)"
    using body by (simp add: ps_def wf_def)
  have c1: "length vs = nat \<lfloor>mul_d (draws w 0) 5\<rfloor> + 2" "2 \<le> length vs" "length vs \<le> 6"
    using len n_eq n_bounds by simp_all
  have c2: "map det_confidence vs =
        map (\<lambda>k. add_d (lit (85 / 100)) (mul_d (draws w (2 + 6 * k)) (lit (15 / 100))))
          [0..<length vs]"
    by (simp add: cf len w0_def)
  have c3: "if draws w (1 + 6 * length vs) > lit (7 / 10)
       then \<exists>p. ps = [p] \<and> det_class p = Some ''person'' \<and>
                det_confidence p =
                  add_d (lit (75 / 100)) (mul_d (draws w (2 + 6 * length vs)) (lit (25 / 100))) \<and>
                3 / 4 \<le> det_confidence p \<and> det_confidence p \<le> 1
       else ps = []"
    using person_detection_props [OF u2] by (simp add: ps_def len d2)
  from res c1 good c2 c3 show ?thesis by blast
qed

section \<open>Sums\<close>

text \<open>
  The sum of up to 16 numbers of \<open>[0, 1]\<close>, each addition rounded, and the aggregate
  confidence computed from it.
\<close>

lemma sum_error_steps:
  fixes \<delta> :: real
  assumes step: "\<And>y. 0 \<le> y \<Longrightarrow> y \<le> 31 \<Longrightarrow> \<bar>fl y - y\<bar> \<le> \<delta>"
    and "\<forall>x\<in>set xs. 0 \<le> x \<and> x \<le> 1" "0 \<le> z"
    and "z + real (length xs) + real (length xs) * \<delta> \<le> 31"
  shows "0 \<le> foldl add_d z xs \<and>
         \<bar>foldl add_d z xs - (z + sum_list xs)\<bar> \<le> real (length xs) * \<delta>"
  using assms(2-)
proof (induction xs arbitrary: z)
  case Nil
  then show ?case by simp
next
  case (Cons x xs)
  have d0: "0 \<le> \<delta>" using step [of 0] by simp
  from Cons.prems(1) have x: "0 \<le> x" "x \<le> 1" and rest: "\<forall>x\<in>set xs. 0 \<le> x \<and> x \<le> 1"
    by simp_all
  have n: "z + (real (length xs) + 1) + (real (length xs) + 1) * \<delta> \<le> 31"
    using Cons.prems(3) by (simp add: add.commute)
  then have n': "z + real (length xs) + 1 + real (length xs) * \<delta> + \<delta> \<le> 31"
    by (simp add: algebra_simps)
  have l0: "0 \<le> real (length xs) * \<delta>" using d0 by simp
  define z' where "z' = fl (z + x)"
  have zx: "0 \<le> z + x" using Cons.prems(2) x by simp
  then have z'0: "0 \<le> z'" unfolding z'_def by (rule fl_nonneg)
  from n' l0 d0 x have "z + x \<le> 31" by linarith
  from step [OF zx this] have e: "\<bar>z' - (z + x)\<bar> \<le> \<delta>" by (simp add: z'_def)
  then have "z' \<le> z + x + \<delta>" by linarith
  with x n' have "z' + real (length xs) + real (length xs) * \<delta> \<le> 31" by linarith
  from Cons.IH [OF rest z'0 this]
  have ih: "0 \<le> foldl add_d z' xs"
    "\<bar>foldl add_d z' xs - (z' + sum_list xs)\<bar> \<le> real (length xs) * \<delta>"
    by blast+
  from ih(2) e have "\<bar>foldl add_d z' xs - (z + x + sum_list xs)\<bar> \<le>
      real (length xs) * \<delta> + \<delta>" by linarith
  then have "\<bar>foldl add_d z' xs - (z + sum_list (x # xs))\<bar> \<le> real (length (x # xs)) * \<delta>"
    by (simp add: algebra_simps)
  moreover have "foldl add_d z (x # xs) = foldl add_d z' xs"
    by (simp add: z'_def add_d_def [of z x])
  ultimately show ?case using ih(1) by (simp only:)
qed

lemma sum_error:
  assumes "\<forall>x\<in>set xs. 0 \<le> x \<and> x \<le> 1" "length xs \<le> 16"
  shows "0 \<le> foldl add_d 0 xs \<and>
         \<bar>foldl add_d 0 xs - sum_list xs\<bar> \<le> real (length xs) / 2 ^ 49"
proof -
  have step: "\<bar>fl y - y\<bar> \<le> 1 / 2 ^ 49" if "0 \<le> y" "y \<le> 31" for y
  proof -
    from that have "\<bar>y\<bar> < 2 powi 5" by simp
    from fl_error_below [OF this] show ?thesis by (simp add: power_int_minus)
  qed
  from assms(2) have "real (length xs) \<le> 16" by simp
  moreover have "real (length xs) * (1 / 2 ^ 49) \<le> 16 * (1 / 2 ^ 49)"
    using assms(2) by (intro mult_right_mono) simp_all
  ultimately have "0 + real (length xs) + real (length xs) * (1 / 2 ^ 49) \<le> 31" by simp
  from sum_error_steps [of "1 / 2 ^ 49", OF step assms(1) order_refl this]
  show ?thesis by simp
qed

lemma foldl_add_d_map:
  "foldl (\<lambda>sum a. add_d sum (f a)) z xs = foldl add_d z (map f xs)"
  by (induction xs arbitrary: z) simp_all

lemma aggregate_error:
  assumes "\<forall>x\<in>set xs. 0 \<le> x \<and> x \<le> 1" "xs \<noteq> []" "length xs \<le> 16"
  shows "\<bar>min 1 (add_d (div_d (foldl add_d 0 xs) (real (length xs)))
                (if length xs > 1 then lit (1 / 10) else 0)) -
          min 1 (sum_list xs / real (length xs) + (if length xs > 1 then 1 / 10 else 0))\<bar>
         \<le> 1 / 2 ^ 44"
proof -
  define n where "n = real (length xs)"
  define s where "s = foldl add_d 0 xs"
  define S where "S = sum_list xs"
  define b :: real where "b = (if length xs > 1 then lit (1 / 10) else 0)"
  define B :: real where "B = (if length xs > 1 then 1 / 10 else 0)"
  from assms(2,3) have n: "1 \<le> n" "n \<le> 16" by (simp_all add: n_def Suc_le_eq)
  from sum_error [OF assms(1,3)]
  have s: "0 \<le> s" "\<bar>s - S\<bar> \<le> n / 2 ^ 49" by (simp_all add: s_def S_def n_def)
  have S: "0 \<le> S" "S \<le> n"
  proof -
    show "0 \<le> S" unfolding S_def using assms(1) by (intro sum_list_nonneg) simp
    have "sum_list xs \<le> sum_list (map (\<lambda>x. 1) xs)"
      using assms(1) by (intro sum_list_mono [of xs "\<lambda>x. x" "\<lambda>x. 1", simplified]) simp
    then show "S \<le> n" by (simp add: S_def n_def sum_list_triv)
  qed
  have "\<bar>s / n - S / n\<bar> = \<bar>s - S\<bar> / n" using n(1) by (simp add: diff_divide_distrib [symmetric])
  also have "\<dots> \<le> (n / 2 ^ 49) / n" using s(2) n(1) by (intro divide_right_mono) simp_all
  also have "\<dots> = 1 / 2 ^ 49" using n(1) by simp
  finally have q: "\<bar>s / n - S / n\<bar> \<le> 1 / 2 ^ 49" .
  have Sn: "0 \<le> S / n" "S / n \<le> 1" using S n(1) by simp_all
  have sn0: "0 \<le> s / n" using s(1) n(1) by simp
  from q Sn have "s / n \<le> 1 + 1 / 2 ^ 49" by linarith
  moreover have "(1::real) + 1 / 2 ^ 49 < 2" by simp
  ultimately have "s / n < 2" by linarith
  with sn0 have sn: "0 \<le> s / n" "\<bar>s / n\<bar> < 2" by simp_all
  from fl_error_2 [OF sn(2)] have a: "\<bar>fl (s / n) - s / n\<bar> \<le> 1 / 2 ^ 53" .
  have a0: "0 \<le> fl (s / n)" using sn(1) by (rule fl_nonneg)
  from a q Sn have a1: "fl (s / n) \<le> 1 + 1 / 2 ^ 49 + 1 / 2 ^ 53" by linarith
  have b: "0 \<le> b" "b \<le> 1 / 8" "\<bar>b - B\<bar> \<le> 1 / 2 ^ 53"
    by (simp_all add: b_def B_def lit_def aggregate_fl)
  from a0 a1 b have "\<bar>fl (s / n) + b\<bar> < 2" by simp
  from fl_error_2 [OF this] have r: "\<bar>fl (fl (s / n) + b) - (fl (s / n) + b)\<bar> \<le> 1 / 2 ^ 53" .
  from r a q b(3) have "\<bar>fl (fl (s / n) + b) - (S / n + B)\<bar> \<le>
      1 / 2 ^ 53 + 1 / 2 ^ 53 + 1 / 2 ^ 49 + 1 / 2 ^ 53" by linarith
  moreover have "\<bar>min 1 (fl (fl (s / n) + b)) - min 1 (S / n + B)\<bar> \<le>
      \<bar>fl (fl (s / n) + b) - (S / n + B)\<bar>" by (rule min_error)
  ultimately have "\<bar>min 1 (fl (fl (s / n) + b)) - min 1 (S / n + B)\<bar> \<le> 1 / 2 ^ 44"
    by simp
  then show ?thesis
    by (simp only: add_d_def div_d_def s_def S_def n_def b_def B_def)
qed

section \<open>Updates by key\<close>

lemma single_cases:
  "(\<exists>p. rows = [p] \<and> single rows = (Some p, None)) \<or> single rows = (None, Some No_single_row)"
  by (cases rows rule: single.cases) auto

lemma filter_update_rows:
  assumes "\<And>r. key (upd r) = key r"
  shows "filter (\<lambda>r. key r = k) (map (\<lambda>r. if key r = k then upd r else r) rows) =
         map upd (filter (\<lambda>r. key r = k) rows)"
  using assms by (induction rows) auto

lemma other_rows_kept:
  assumes "\<And>r. key (upd r) = key r"
  shows "filter (\<lambda>r. key r \<noteq> k) (map (\<lambda>r. if key r = k then upd r else r) rows) =
         filter (\<lambda>r. key r \<noteq> k) rows"
  using assms by (induction rows) auto

lemma pa_id_rejected [simp]: "pa_id (rejected_row reason who t p) = pa_id p"
  by (simp add: rejected_row_def)

lemma pa_id_approved [simp]: "pa_id (approved_row who t p) = pa_id p"
  by (simp add: approved_row_def)

lemma st_id_started [simp]: "st_id (started_row t r) = st_id r"
  by (simp add: started_row_def)

lemma approved_rows:
  "filter (\<lambda>r. pa_id r = k)
     (map (\<lambda>r. if pa_id r = k then approved_row who t r else r) rows) =
   map (approved_row who t) (filter (\<lambda>r. pa_id r = k) rows)"
  by (rule filter_update_rows) simp

lemma rejected_rows:
  "filter (\<lambda>r. pa_id r = k)
     (map (\<lambda>r. if pa_id r = k then rejected_row reason who t r else r) rows) =
   map (rejected_row reason who t) (filter (\<lambda>r. pa_id r = k) rows)"
  by (rule filter_update_rows) simp

lemma started_rows:
  "filter (\<lambda>r. st_id r = k)
     (map (\<lambda>r. if st_id r = k then started_row t r else r) rows) =
   map (started_row t) (filter (\<lambda>r. st_id r = k) rows)"
  by (rule filter_update_rows) simp

lemma alertData_fields:
  "al_severity (alertData p t i) = or_string (dd_severity (pa_detection_data p)) ''high''"
  "al_stream_id (alertData p t i) = pa_stream_id p"
  "al_location (alertData p t i) = or_string (dd_location (pa_detection_data p)) ''Unknown''"
  "al_confidence (alertData p t i) = pa_confidence p"
  "al_status (alertData p t i) = Sent"
  "al_type (alertData p t i) = Accident"
  "al_sent_at (alertData p t i) = Some t"
  "al_detection_data (alertData p t i) = pa_detection_data p"
  "al_id (alertData p t i) = i"
  by (simp_all add: alertData_def Let_def)

section \<open>The handlers, case by case\<close>

text \<open>
  Each handler as a function of the rows that carry the identifier. Exactly one row: the
  handler goes through (for the approval, when the alert can be inserted). Any other
  number: \<^verbatim>\<open>.single()\<close> reports an error, which the handler throws and answers with 500.
\<close>

lemma reject_state:
  "snd (reject k reason who s) =
     (let t = ticks (env s) 0;
          s2 = s\<lparr>tbl_pending_alerts :=
                  map (\<lambda>r. if pa_id r = k then rejected_row reason who t r else r)
                    (tbl_pending_alerts s),
                env := snd (Date_now (env s))\<rparr>
      in case filter (\<lambda>r. pa_id r = k) (tbl_pending_alerts s) of
           [p] \<Rightarrow> s2\<lparr>emitted := emitted s @ [Alert_rejected (rejected_row reason who t p)]\<rparr>
         | _ \<Rightarrow> s2)"
proof -
  let ?t = "ticks (env s) 0"
  let ?rows = "filter (\<lambda>r. pa_id r = k) (tbl_pending_alerts s)"
  have f: "filter (\<lambda>r. pa_id r = k)
             (map (\<lambda>r. if pa_id r = k then rejected_row reason who ?t r else r)
                (tbl_pending_alerts s)) = map (rejected_row reason who ?t) ?rows"
    by (rule filter_update_rows) simp
  show ?thesis
    unfolding reject_def clock_read_def Date_now_def Let_def rejected_row_def [symmetric]
    by (cases ?rows rule: single.cases) (simp_all add: f)
qed

lemma reject_response:
  "fst (reject k reason who s) =
     (case filter (\<lambda>r. pa_id r = k) (tbl_pending_alerts s) of
        [p] \<Rightarrow> Ok_200 (rejected_row reason who (ticks (env s) 0) p)
      | _ \<Rightarrow> Error_500 ''Failed to reject pending alert'')"
proof -
  let ?t = "ticks (env s) 0"
  let ?rows = "filter (\<lambda>r. pa_id r = k) (tbl_pending_alerts s)"
  have f: "filter (\<lambda>r. pa_id r = k)
             (map (\<lambda>r. if pa_id r = k then rejected_row reason who ?t r else r)
                (tbl_pending_alerts s)) = map (rejected_row reason who ?t) ?rows"
    by (rule filter_update_rows) simp
  show ?thesis
    unfolding reject_def clock_read_def Date_now_def Let_def rejected_row_def [symmetric]
    by (cases ?rows rule: single.cases) (simp_all add: f)
qed

lemma approve_result:
  "approve k who s =
     (case filter (\<lambda>r. pa_id r = k) (tbl_pending_alerts s) of
        [p] \<Rightarrow>
          if alert_insertable p s
          then (Ok_200 (p, Some (alertData p (ticks (env s) 1) (fresh_uuid s))),
                approve_ok_state k who p s)
          else (Error_500 ''Failed to approve pending alert'',
                s\<lparr>tbl_pending_alerts :=
                    map (\<lambda>r. if pa_id r = k then approved_row who (ticks (env s) 0) r else r)
                      (tbl_pending_alerts s),
                  env := (env s)\<lparr>ticks := (\<lambda>n. ticks (env s) (Suc (Suc n)))\<rparr>\<rparr>)
      | _ \<Rightarrow> (Error_500 ''Failed to approve pending alert'', s))"
  unfolding approve_def clock_read_def Date_now_def Let_def insert_alert_def
    approved_row_def [symmetric] alert_insertable_def approve_ok_state_def
    update_stream_alert_def alerted_streams_def
  by (cases "filter (\<lambda>r. pa_id r = k) (tbl_pending_alerts s)" rule: single.cases)
     (simp_all add: alertData_fields)

lemma start_result:
  "start k s =
     (case filter (\<lambda>r. st_id r = k) (tbl_streams s) of
        [st] \<Rightarrow>
          (Ok_200 (Some (started_row (ticks (env s) 0) st)),
           s\<lparr>tbl_streams :=
               map (\<lambda>r. if st_id r = k then started_row (ticks (env s) 0) r else r) (tbl_streams s),
             env := snd (Date_now (env s)),
             intervals := intervals s @ [Some (started_row (ticks (env s) 0) st)],
             emitted := emitted s @ [Stream_started (Some (started_row (ticks (env s) 0) st))]\<rparr>)
      | _ \<Rightarrow> (Error_500 ''Failed to start stream monitoring'', s))"
proof -
  let ?t = "ticks (env s) 0"
  let ?rows = "filter (\<lambda>r. st_id r = k) (tbl_streams s)"
  have f: "filter (\<lambda>r. st_id r = k)
             (map (\<lambda>r. if st_id r = k then started_row ?t r else r) (tbl_streams s)) =
           map (started_row ?t) ?rows"
    by (rule filter_update_rows) simp
  show ?thesis
    unfolding start_def clock_read_def Date_now_def Let_def started_row_def [symmetric]
      processStreamWithML_def
    by (cases ?rows rule: single.cases) (simp_all add: f)
qed

lemma find_unique:
  "filter P rows = [r] \<Longrightarrow> find P rows = Some r"
  by (induction rows) (auto split: if_splits simp: filter_empty_conv)

lemma start_mongoose_result:
  assumes "filter (\<lambda>r. st_id r = k) (tbl_streams s) = [st]"
  shows "start_mongoose k s =
     (Ok_200 (started_row (ticks (env s) 0) st),
      s\<lparr>tbl_streams :=
          map (\<lambda>r. if st_id r = k then started_row (ticks (env s) 0) st else r) (tbl_streams s),
        env := snd (Date_now (env s)),
        intervals := intervals s @ [Some (started_row (ticks (env s) 0) st)],
        emitted := emitted s @ [Stream_started (Some (started_row (ticks (env s) 0) st))]\<rparr>)"
  unfolding start_mongoose_def clock_read_def Date_now_def Let_def started_row_def [symmetric]
    processStreamWithML_def
  by (simp add: find_unique [OF assms])

text \<open>
  What the approval writes into the accident count of the owning stream, when the
  database accepts it.
\<close>

lemma approve_accident_count:
  assumes "fst (approve k who s) = Ok_200 (pa, al)"
    and "fits_integer (or_number (dd_accident_count (pa_detection_data pa)) 1)"
    and "r \<in> set (tbl_streams (snd (approve k who s)))" and "st_id r = pa_stream_id pa"
  shows "st_accident_count r = \<lfloor>or_number (dd_accident_count (pa_detection_data pa)) 1\<rfloor>"
proof -
  let ?rows = "filter (\<lambda>x. pa_id x = k) (tbl_pending_alerts s)"
  from assms(1) have rows: "?rows = [pa]" and ins: "alert_insertable pa s"
    unfolding approve_result
    by (cases ?rows rule: single.cases; simp split: if_splits)+
  then have "snd (approve k who s) = approve_ok_state k who pa s"
    by (simp add: approve_result)
  with assms(2,3,4) show ?thesis
    by (auto simp: approve_ok_state_def alerted_streams_def)
qed

section \<open>Evaluating the stores\<close>

lemma office_waiting: "filter (\<lambda>r. pa_id r = 12) (tbl_pending_alerts office) = [waiting]"
  by (simp add: office_def waiting_def)

lemma office_insertable: "alert_insertable waiting office"
  by (simp add: alert_insertable_def waiting_def office_def or_string_def camera_def)

lemma office_approve:
  "approve 12 who office =
     (Ok_200 (waiting, Some (alertData waiting 1001 100)), approve_ok_state 12 who waiting office)"
proof -
  have "ticks (env office) 1 = 1001" "fresh_uuid office = 100" by (simp_all add: office_def)
  then show ?thesis
    by (simp add: approve_result office_waiting office_insertable)
qed

lemma lobby_approve:
  "approve 13 who lobby =
     (Ok_200 (bare, Some (alertData bare 1001 100)), approve_ok_state 13 who bare lobby)"
proof -
  have "filter (\<lambda>r. pa_id r = 13) (tbl_pending_alerts lobby) = [bare]"
    by (simp add: lobby_def bare_def)
  moreover have "alert_insertable bare lobby"
    by (simp add: alert_insertable_def lobby_def office_def bare_def or_string_def camera_def)
  moreover have "ticks (env lobby) 1 = 1001" "fresh_uuid lobby = 100"
    by (simp_all add: lobby_def office_def)
  ultimately show ?thesis
    by (simp add: approve_result)
qed

lemma vault_approve:
  "approve 14 who vault =
     (Ok_200 (huge, Some (alertData huge 1001 100)), approve_ok_state 14 who huge vault)"
proof -
  have "filter (\<lambda>r. pa_id r = 14) (tbl_pending_alerts vault) = [huge]"
    by (simp add: vault_def huge_def)
  moreover have "alert_insertable huge vault"
    by (simp add: alert_insertable_def vault_def office_def huge_def or_string_def camera_def)
  moreover have "ticks (env vault) 1 = 1001" "fresh_uuid vault = 100"
    by (simp_all add: vault_def office_def)
  ultimately show ?thesis
    by (simp add: approve_result)
qed

lemma decided_tables:
  "tbl_pending_alerts decided = [approved_row (Some ''operator-1'') 1000 waiting]"
  "tbl_alerts decided = [alertData waiting 1001 100]"
  "tbl_streams decided = [camera\<lparr>st_status := Alert, st_accident_count := 1\<rparr>]"
  "ticks (env decided) = (\<lambda>n. 1002 + n)"
  "fresh_uuid decided = 101"
  by (simp_all add: decided_def office_approve approve_ok_state_def)
     (simp_all add: office_def waiting_def camera_def alerted_streams_def or_number_def
        fits_integer_def)

lemma decided_row:
  "filter (\<lambda>r. pa_id r = 12) (tbl_pending_alerts decided) =
     [approved_row (Some ''operator-1'') 1000 waiting]"
  by (simp add: decided_tables) (simp add: waiting_def)

lemma decided_insertable:
  "alert_insertable (approved_row (Some ''operator-1'') 1000 waiting) decided"
  by (simp add: alert_insertable_def decided_tables)
     (simp add: approved_row_def waiting_def or_string_def camera_def)

lemma office_camera: "filter (\<lambda>r. st_id r = 7) (tbl_streams office) = [camera]"
  by (simp add: office_def camera_def)

lemma monitored_tables:
  "tbl_streams monitored = [started_row 1000 camera]"
  "intervals monitored = [Some (started_row 1000 camera)]"
  "ticks (env monitored) = (\<lambda>n. 1001 + n)"
  by (simp_all add: monitored_def start_result office_camera)
     (simp_all add: office_def Date_now_def camera_def)

lemma monitored_camera:
  "filter (\<lambda>r. st_id r = 7) (tbl_streams monitored) = [started_row 1000 camera]"
  by (simp add: monitored_tables) (simp add: camera_def)

section \<open>Properties of the collision analyzer\<close>




text \<open>
  C5. A list of detections with fewer than two vehicles gives no candidate: the result has
  an empty candidate list, no accident detected and aggregate confidence 0.
\<close>

theorem few_vehicles_no_accident:
  assumes "length (filter is_vehicle ds) < 2"
  shows "fst (detectAccidents ds w) = [] \<and>
         res_accidents (fst (analyzeDetections ds w)) = [] \<and>
         \<not> res_accidentDetected (fst (analyzeDetections ds w)) \<and>
         res_confidence (fst (analyzeDetections ds w)) = 0"
proof -
  from assms have "detectAccidents ds w = ([], w)"
    by (simp add: detectAccidents_def minVehicles_def)
  then show ?thesis
    by (simp add: analyzeDetections_def Date_now_def)
qed

theorem few_vehicles_no_accident_witness:
  "length (filter is_vehicle [car_at ''car'' 1 0, car_at ''person'' 1 0]) < 2 \<and>
   fst (detectAccidents [car_at ''car'' 1 0, car_at ''person'' 1 0] (steady_world 0)) = [] \<and>
   \<not> res_accidentDetected
       (fst (analyzeDetections [car_at ''car'' 1 0, car_at ''person'' 1 0] (steady_world 0))) \<and>
   res_confidence
       (fst (analyzeDetections [car_at ''car'' 1 0, car_at ''person'' 1 0] (steady_world 0))) = 0"
proof -
  have h: "length (filter is_vehicle [car_at ''car'' 1 0, car_at ''person'' 1 0]) < 2"
    by (simp add: is_vehicle_def car_at_def vehicle_classes_def)
  from few_vehicles_no_accident [OF h, of "steady_world 0"] h show ?thesis
    by simp
qed

text \<open>
  C7. For input confidences in \<open>[0, 1]\<close>, a distance that is not negative and a variance
  term \<open>U\<close> in \<open>[0, 0.3)\<close> (the rounded product of the draw and 0.3), the collision
  confidence that the code computes is \<open>min(1, c\<^sub>1 * c\<^sub>2 * max(0, 1 - d/200) * 1.2 + U)\<close> as
  doubles compute it, and it lies in \<open>[0, 1]\<close>; so does the formula on the exact reals,
  from which it differs by at most \<open>2\<^sup>-\<^sup>4\<^sup>9\<close>. At distance 0 with both confidences 1 the
  code computes 1.
\<close>

theorem collision_confidence_bounds:
  assumes "0 \<le> det_confidence v1" "det_confidence v1 \<le> 1"
    and "0 \<le> det_confidence v2" "det_confidence v2 \<le> 1"
    and "0 \<le> d"
    and "0 \<le> U" "U < 3 / 10" "mul_d (draws w 0) (lit (3 / 10)) = U"
  shows "fst (calculateCollisionConfidence v1 v2 d w) =
           min 1 (add_d (mul_d (mul_d (mul_d (det_confidence v1) (det_confidence v2))
                                  (max 0 (sub_d 1 (div_d d 200))))
                           (lit (12 / 10))) U) \<and>
         0 \<le> fst (calculateCollisionConfidence v1 v2 d w) \<and>
         fst (calculateCollisionConfidence v1 v2 d w) \<le> 1 \<and>
         0 \<le> min 1 (det_confidence v1 * det_confidence v2 * max 0 (1 - d / 200) * (12 / 10) + U) \<and>
         min 1 (det_confidence v1 * det_confidence v2 * max 0 (1 - d / 200) * (12 / 10) + U) \<le> 1 \<and>
         \<bar>fst (calculateCollisionConfidence v1 v2 d w) -
            min 1 (det_confidence v1 * det_confidence v2 * max 0 (1 - d / 200) * (12 / 10) + U)\<bar>
           \<le> 1 / 2 ^ 49"
proof -
  have eq: "fst (calculateCollisionConfidence v1 v2 d w) =
      confidence_formula_d (det_confidence v1) (det_confidence v2) d U"
    using assms(8)
    by (simp add: calculateCollisionConfidence_def Math_random_def collision_score_def
        confidence_formula_d_def Let_def)
  from assms(7) have "U \<le> 3 / 10" by simp
  from confidence_formula_d_range [OF assms(1,3,6), of d]
    confidence_formula_range [OF assms(1,3,6), of d]
    confidence_formula_error [OF assms(1-6) this]
  show ?thesis
    unfolding eq by (simp only: confidence_formula_d_def confidence_formula_def)
qed

theorem collision_confidence_bounds_witness:
  "fst (calculateCollisionConfidence (car_at ''car'' 1 0) (car_at ''bus'' 1 0) 0 (steady_world 0)) = 1"
  using collision_confidence_bounds [of "car_at ''car'' 1 0" "car_at ''bus'' 1 0" 0 0 "steady_world 0"]
  by (simp add: car_at_def steady_world_def add_d_def sub_d_def mul_d_def div_d_def lit_def scene_fl)

text \<open>
  C8. The aggregate confidence is 0 for no candidates and otherwise the mean of the
  candidate confidences, plus 0.1 when there is more than one, capped at 1, as doubles
  compute it: the confidences added from left to right, the sum divided by their number
  and 0.1 added, each operation rounded. For up to 16 candidates with confidences in
  \<open>[0, 1]\<close> (six vehicles give 15 pairs at most) it differs from the same expression on
  the exact reals by at most \<open>2\<^sup>-\<^sup>4\<^sup>4\<close>. An accident is detected exactly when the
  candidate list is not empty. \<^verbatim>\<open>processFrame\<close> computes this for the detections it has
  generated.
\<close>

theorem aggregate_confidence:
  "calculateAccidentConfidence accs =
     (if accs = [] then 0
      else min 1 (add_d (div_d (foldl add_d 0 (map acc_confidence accs)) (real (length accs)))
                    (if length accs > 1 then lit (1 / 10) else 0))) \<and>
   ((\<forall>a\<in>set accs. 0 \<le> acc_confidence a \<and> acc_confidence a \<le> 1) \<and> length accs \<le> 16 \<longrightarrow>
      \<bar>calculateAccidentConfidence accs -
         (if accs = [] then 0
          else min 1 (sum_list (map acc_confidence accs) / real (length accs) +
                      (if length accs > 1 then 1 / 10 else 0)))\<bar> \<le> 1 / 2 ^ 44) \<and>
   res_accidents (fst (analyzeDetections ds w)) = fst (detectAccidents ds w) \<and>
   res_confidence (fst (analyzeDetections ds w)) =
     calculateAccidentConfidence (fst (detectAccidents ds w)) \<and>
   (res_accidentDetected (fst (analyzeDetections ds w)) \<longleftrightarrow> fst (detectAccidents ds w) \<noteq> []) \<and>
   fst (processFrame fd w) =
     fst (analyzeDetections (fst (performObjectDetection fd w)) (snd (performObjectDetection fd w)))"
proof -
  have eq: "calculateAccidentConfidence accs =
     (if accs = [] then 0
      else min 1 (add_d (div_d (foldl add_d 0 (map acc_confidence accs)) (real (length accs)))
                    (if length accs > 1 then lit (1 / 10) else 0)))"
    by (simp add: calculateAccidentConfidence_def foldl_add_d_map [of acc_confidence] Let_def)
  have err: "\<bar>calculateAccidentConfidence accs -
         (if accs = [] then 0
          else min 1 (sum_list (map acc_confidence accs) / real (length accs) +
                      (if length accs > 1 then 1 / 10 else 0)))\<bar> \<le> 1 / 2 ^ 44"
    if "\<forall>a\<in>set accs. 0 \<le> acc_confidence a \<and> acc_confidence a \<le> 1" "length accs \<le> 16"
  proof (cases "accs = []")
    case True
    then show ?thesis by (simp add: calculateAccidentConfidence_def)
  next
    case False
    from that(1) have "\<forall>x\<in>set (map acc_confidence accs). 0 \<le> x \<and> x \<le> 1" by simp
    moreover from False have "map acc_confidence accs \<noteq> []" by simp
    moreover from that(2) have "length (map acc_confidence accs) \<le> 16" by simp
    ultimately show ?thesis
      using aggregate_error [of "map acc_confidence accs"] False by (simp add: eq)
  qed
  have rest: "res_accidents (fst (analyzeDetections ds w)) = fst (detectAccidents ds w)"
    "res_confidence (fst (analyzeDetections ds w)) =
       calculateAccidentConfidence (fst (detectAccidents ds w))"
    "res_accidentDetected (fst (analyzeDetections ds w)) \<longleftrightarrow> fst (detectAccidents ds w) \<noteq> []"
    "fst (processFrame fd w) =
       fst (analyzeDetections (fst (performObjectDetection fd w))
              (snd (performObjectDetection fd w)))"
    by (simp_all add: calculateAccidentConfidence_def analyzeDetections_def processFrame_def
        Date_now_def split_beta Let_def)
  from eq err rest show ?thesis by blast
qed

theorem aggregate_confidence_witness:
  "0 \<le> lit (71 / 100) \<and> lit (71 / 100) \<le> 1 \<and> 0 \<le> lit (86 / 100) \<and> lit (86 / 100) \<le> 1 \<and>
   calculateAccidentConfidence [candidate_of (lit (71 / 100)), candidate_of (lit (86 / 100))] =
     7971371340445777 / 9007199254740992 \<and>
   (lit (71 / 100) + lit (86 / 100)) / 2 + 1 / 10 = 79713713404457777 / 90071992547409920 \<and>
   \<bar>calculateAccidentConfidence [candidate_of (lit (71 / 100)), candidate_of (lit (86 / 100))] -
      min 1 ((lit (71 / 100) + lit (86 / 100)) / 2 + 1 / 10)\<bar> \<le> 1 / 2 ^ 44"
proof -
  let ?accs = "[candidate_of (lit (71 / 100)), candidate_of (lit (86 / 100))]"
  have r: "0 \<le> lit (71 / 100) \<and> lit (71 / 100) \<le> 1 \<and> 0 \<le> lit (86 / 100) \<and> lit (86 / 100) \<le> 1"
    by (simp add: lit_def aggregate_fl)
  then have h: "(\<forall>a\<in>set ?accs. 0 \<le> acc_confidence a \<and> acc_confidence a \<le> 1) \<and> length ?accs \<le> 16"
    by (simp add: candidate_of_def)
  from aggregate_confidence [of ?accs "[]" "steady_world 0" "()"] h
  have v: "calculateAccidentConfidence ?accs =
     (if ?accs = [] then 0
      else min 1 (add_d (div_d (foldl add_d 0 (map acc_confidence ?accs)) (real (length ?accs)))
                    (if length ?accs > 1 then lit (1 / 10) else 0)))"
    and e: "\<bar>calculateAccidentConfidence ?accs -
         (if ?accs = [] then 0
          else min 1 (sum_list (map acc_confidence ?accs) / real (length ?accs) +
                      (if length ?accs > 1 then 1 / 10 else 0)))\<bar> \<le> 1 / 2 ^ 44"
    by blast+
  have "calculateAccidentConfidence ?accs =
     min 1 (add_d (div_d (foldl add_d 0 [lit (71 / 100), lit (86 / 100)]) 2) (lit (1 / 10)))"
    by (subst v) (simp add: candidate_of_def)
  also have "\<dots> = 7971371340445777 / 9007199254740992"
    by (simp add: add_d_def div_d_def lit_def aggregate_fl)
  finally have c: "calculateAccidentConfidence ?accs = 7971371340445777 / 9007199254740992" .
  have x: "(lit (71 / 100) + lit (86 / 100)) / 2 + 1 / 10 =
      (79713713404457777 / 90071992547409920 :: real)"
    by (simp add: lit_def aggregate_fl)
  from e have e': "\<bar>calculateAccidentConfidence ?accs -
      min 1 ((lit (71 / 100) + lit (86 / 100)) / 2 + 1 / 10)\<bar> \<le> 1 / 2 ^ 44"
    by (simp add: candidate_of_def)
  from r c x e' show ?thesis by blast
qed

section \<open>Severity tiers\<close>

text \<open>
  C6. The thresholds of the source are the doubles that the literals 0.85, 0.75 and 0.65
  denote. The severity tier of a confidence \<open>c\<close> is 'critical' exactly when \<open>c > 0.85\<close>,
  'high' exactly when \<open>0.75 < c \<le> 0.85\<close>, 'medium' exactly when \<open>0.65 < c \<le> 0.75\<close> and
  'low' exactly in the remaining case \<open>c \<le> 0.65\<close>; every confidence gets one of the four
  tiers, and the confidence 0.85 is 'high'. The distance argument plays no part. For a
  double \<open>c\<close> the comparisons with 0.85 and with 0.75 come out as those with the decimal
  fractions themselves. The decimal fraction 0.65 is not a double; the double that the
  literal denotes lies just above it, and it is the one double above the decimal fraction
  that is 'low'.
\<close>

theorem calculateSeverity_partition:
  "(calculateSeverity c d = ''critical'' \<longleftrightarrow> c > lit (85 / 100)) \<and>
   (calculateSeverity c d = ''high'' \<longleftrightarrow> lit (75 / 100) < c \<and> c \<le> lit (85 / 100)) \<and>
   (calculateSeverity c d = ''medium'' \<longleftrightarrow> lit (65 / 100) < c \<and> c \<le> lit (75 / 100)) \<and>
   (calculateSeverity c d = ''low'' \<longleftrightarrow> c \<le> lit (65 / 100)) \<and>
   calculateSeverity c d \<in> {''critical'', ''high'', ''medium'', ''low''} \<and>
   calculateSeverity (lit (85 / 100)) d = ''high'' \<and>
   (is_double c \<longrightarrow>
      (calculateSeverity c d = ''critical'' \<longleftrightarrow> c > 85 / 100) \<and>
      (calculateSeverity c d = ''high'' \<longleftrightarrow> 75 / 100 < c \<and> c \<le> 85 / 100) \<and>
      (calculateSeverity c d = ''medium'' \<longleftrightarrow>
         65 / 100 < c \<and> c \<le> 75 / 100 \<and> c \<noteq> lit (65 / 100)) \<and>
      (calculateSeverity c d = ''low'' \<longleftrightarrow> c \<le> 65 / 100 \<or> c = lit (65 / 100)))"
proof -
  have ord: "lit (65 / 100) < lit (75 / 100)" "lit (75 / 100) < lit (85 / 100)"
    by (simp_all add: lit_def scene_fl)
  have tiers: "(calculateSeverity c d = ''critical'' \<longleftrightarrow> c > lit (85 / 100))"
    "(calculateSeverity c d = ''high'' \<longleftrightarrow> lit (75 / 100) < c \<and> c \<le> lit (85 / 100))"
    "(calculateSeverity c d = ''medium'' \<longleftrightarrow> lit (65 / 100) < c \<and> c \<le> lit (75 / 100))"
    "(calculateSeverity c d = ''low'' \<longleftrightarrow> c \<le> lit (65 / 100))"
    "calculateSeverity c d \<in> {''critical'', ''high'', ''medium'', ''low''}"
    using ord by (auto simp: calculateSeverity_def)
  have edge: "calculateSeverity (lit (85 / 100)) d = ''high''"
    using ord by (simp add: calculateSeverity_def)
  have dec: "(calculateSeverity c d = ''critical'' \<longleftrightarrow> c > 85 / 100) \<and>
      (calculateSeverity c d = ''high'' \<longleftrightarrow> 75 / 100 < c \<and> c \<le> 85 / 100) \<and>
      (calculateSeverity c d = ''medium'' \<longleftrightarrow>
         65 / 100 < c \<and> c \<le> 75 / 100 \<and> c \<noteq> lit (65 / 100)) \<and>
      (calculateSeverity c d = ''low'' \<longleftrightarrow> c \<le> 65 / 100 \<or> c = lit (65 / 100))"
    if "is_double c"
  proof -
    from severity_literals [OF that]
    have l: "c > 85 / 100 \<longleftrightarrow> c > lit (85 / 100)" "c > 75 / 100 \<longleftrightarrow> c > lit (75 / 100)"
      "c > 65 / 100 \<longleftrightarrow> c \<ge> lit (65 / 100)"
      by blast+
    show ?thesis
      using l ord by (auto simp: tiers)
  qed
  from tiers edge dec show ?thesis by blast
qed

theorem calculateSeverity_partition_witness:
  "is_double (lit (85 / 100)) \<and> calculateSeverity (lit (85 / 100)) 0 = ''high'' \<and>
   75 / 100 < lit (85 / 100) \<and> lit (85 / 100) \<le> 85 / 100 \<and>
   is_double (lit (65 / 100)) \<and> calculateSeverity (lit (65 / 100)) 0 = ''low'' \<and>
   65 / 100 < lit (65 / 100)"
proof -
  have d: "is_double (lit (85 / 100))" "is_double (lit (65 / 100))"
    by (simp_all only: lit_def is_double_fl)
  from calculateSeverity_partition [of "lit (85 / 100)" 0] d(1)
  have "calculateSeverity (lit (85 / 100)) 0 = ''high''"
    "75 / 100 < lit (85 / 100) \<and> lit (85 / 100) \<le> 85 / 100"
    by blast+
  moreover from calculateSeverity_partition [of "lit (65 / 100)" 0] d(2)
  have "calculateSeverity (lit (65 / 100)) 0 = ''low''" by blast
  moreover have "65 / 100 < lit (65 / 100)" by (simp add: lit_def scene_fl)
  ultimately show ?thesis using d by blast
qed

section \<open>Properties of the detection generator\<close>

text \<open>
  C10, as the code computes it. When every draw is a double in \<open>[0, 1)\<close>,
  \<^verbatim>\<open>performObjectDetection\<close> returns between 2 and 6 vehicles (the integer part of the
  rounded product of the first draw and 5, plus 2), each with a class of the vehicle list
  and a confidence from 0.85 up to 1, both ends included: the \<open>k\<close>-th has the rounded sum
  of 0.85 and the rounded product of its second draw and 0.15. They are followed by
  exactly one pedestrian, with a confidence from 0.75 up to 1, both ends included, when the
  draw after the vehicles' exceeds 0.7, and by nothing otherwise; the code compares that
  draw with the double nearest to 0.7, which the same draws exceed. It returns for every
  input.
\<close>

theorem performObjectDetection_contract:
  assumes "unit_draws w"
  shows "\<exists>vs ps w'. performObjectDetection fd w = (vs @ ps, w') \<and>
      length vs = nat \<lfloor>mul_d (draws w 0) 5\<rfloor> + 2 \<and> 2 \<le> length vs \<and> length vs \<le> 6 \<and>
      (\<forall>v\<in>set vs. is_vehicle v \<and> lit (85 / 100) \<le> det_confidence v \<and> det_confidence v \<le> 1) \<and>
      map det_confidence vs =
        map (\<lambda>k. add_d (lit (85 / 100)) (mul_d (draws w (2 + 6 * k)) (lit (15 / 100))))
          [0..<length vs] \<and>
      (draws w (1 + 6 * length vs) > lit (7 / 10) \<longleftrightarrow> draws w (1 + 6 * length vs) > 7 / 10) \<and>
      (if draws w (1 + 6 * length vs) > 7 / 10
       then \<exists>p. ps = [p] \<and> det_class p = Some ''person'' \<and>
                det_confidence p =
                  add_d (lit (75 / 100)) (mul_d (draws w (2 + 6 * length vs)) (lit (25 / 100))) \<and>
                75 / 100 \<le> det_confidence p \<and> det_confidence p \<le> 1
       else ps = [])"
proof -
  from performObjectDetection_run [OF assms, of fd] obtain vs ps w' where
    res: "performObjectDetection fd w = (vs @ ps, w')"
    and len: "length vs = nat \<lfloor>mul_d (draws w 0) 5\<rfloor> + 2" "2 \<le> length vs" "length vs \<le> 6"
    and good: "\<forall>v\<in>set vs. generated_vehicle v"
    and cf: "map det_confidence vs =
        map (\<lambda>k. add_d (lit (85 / 100)) (mul_d (draws w (2 + 6 * k)) (lit (15 / 100))))
          [0..<length vs]"
    and ped: "if draws w (1 + 6 * length vs) > lit (7 / 10)
       then \<exists>p. ps = [p] \<and> det_class p = Some ''person'' \<and>
                det_confidence p =
                  add_d (lit (75 / 100)) (mul_d (draws w (2 + 6 * length vs)) (lit (25 / 100))) \<and>
                3 / 4 \<le> det_confidence p \<and> det_confidence p \<le> 1
       else ps = []"
    by blast
  from assms have "is_double (draws w (1 + 6 * length vs))" "draws w (1 + 6 * length vs) \<le> 1"
    by (simp_all add: unit_draws_def less_imp_le)
  then have thr: "draws w (1 + 6 * length vs) > lit (7 / 10) \<longleftrightarrow>
                  draws w (1 + 6 * length vs) > 7 / 10"
    by (rule above_seven_tenths)
  from good have c2: "\<forall>v\<in>set vs. is_vehicle v \<and> lit (85 / 100) \<le> det_confidence v \<and> det_confidence v \<le> 1"
    by (simp add: generated_vehicle_def)
  from ped thr have c3: "if draws w (1 + 6 * length vs) > 7 / 10
       then \<exists>p. ps = [p] \<and> det_class p = Some ''person'' \<and>
                det_confidence p =
                  add_d (lit (75 / 100)) (mul_d (draws w (2 + 6 * length vs)) (lit (25 / 100))) \<and>
                75 / 100 \<le> det_confidence p \<and> det_confidence p \<le> 1
       else ps = []"
    by (simp split: if_splits)
  from res len c2 cf thr c3 show ?thesis by blast
qed

theorem performObjectDetection_contract_witness:
  "unit_draws (steady_world (7 / 8)) \<and>
   (\<exists>vs p w'. performObjectDetection () (steady_world (7 / 8)) = (vs @ [p], w') \<and>
      length vs = 6 \<and> det_class p = Some ''person'' \<and> det_confidence p = 31 / 32)"
proof -
  have u: "unit_draws (steady_world (7 / 8))"
    by (simp add: unit_draws_def steady_world_def is_double_def generator_fl)
  have d: "draws (steady_world (7 / 8)) k = 7 / 8" for k
    by (simp add: steady_world_def)
  have n: "nat \<lfloor>mul_d (7 / 8) 5\<rfloor> + 2 = 6"
    by (simp add: mul_d_def generator_fl)
  have c: "add_d (lit (75 / 100)) (mul_d (7 / 8) (lit (25 / 100))) = 31 / 32"
    by (simp add: add_d_def mul_d_def lit_def generator_fl)
  from performObjectDetection_contract [OF u, of "()"] obtain vs ps w' where
    r: "performObjectDetection () (steady_world (7 / 8)) = (vs @ ps, w')"
    and len: "length vs = nat \<lfloor>mul_d (draws (steady_world (7 / 8)) 0) 5\<rfloor> + 2"
    and ped: "if draws (steady_world (7 / 8)) (1 + 6 * length vs) > 7 / 10
       then \<exists>p. ps = [p] \<and> det_class p = Some ''person'' \<and>
                det_confidence p =
                  add_d (lit (75 / 100))
                    (mul_d (draws (steady_world (7 / 8)) (2 + 6 * length vs)) (lit (25 / 100))) \<and>
                75 / 100 \<le> det_confidence p \<and> det_confidence p \<le> 1
       else ps = []"
    by blast
  from ped obtain p where "ps = [p]" "det_class p = Some ''person''" "det_confidence p = 31 / 32"
    unfolding d c by (auto split: if_splits)
  with r len n u show ?thesis unfolding d by auto
qed

text \<open>
  C10 as stated fails at the upper end of the two confidence ranges. With every draw
  \<open>1 - 2\<^sup>-\<^sup>5\<^sup>2\<close>, a double in \<open>[0, 1)\<close>, the generator returns six vehicles and a
  pedestrian, and the confidence of each of the seven is 1.
\<close>

theorem confidence_reaches_one:
  "unit_draws (steady_world (1 - 1 / 2 ^ 52)) \<and>
   map det_confidence (fst (performObjectDetection () (steady_world (1 - 1 / 2 ^ 52)))) =
     [1, 1, 1, 1, 1, 1, 1]"
proof -
  define r :: real where "r = 1 - 1 / 2 ^ 52"
  have u: "unit_draws (steady_world r)"
    by (simp add: unit_draws_def steady_world_def is_double_def r_def generator_fl)
  have d: "draws (steady_world r) k = r" for k
    by (simp add: steady_world_def)
  have n: "nat \<lfloor>mul_d r 5\<rfloor> + 2 = 6"
    by (simp add: mul_d_def r_def generator_fl)
  have cv: "add_d (lit (85 / 100)) (mul_d r (lit (15 / 100))) = 1"
    by (simp add: add_d_def mul_d_def lit_def r_def generator_fl)
  have cp: "add_d (lit (75 / 100)) (mul_d r (lit (25 / 100))) = 1"
    by (simp add: add_d_def mul_d_def lit_def r_def generator_fl)
  have t: "r > lit (7 / 10)"
    by (simp add: lit_def r_def generator_fl)
  from performObjectDetection_run [OF u, of "()"] obtain vs ps w' where
    res: "performObjectDetection () (steady_world r) = (vs @ ps, w')"
    and len: "length vs = nat \<lfloor>mul_d (draws (steady_world r) 0) 5\<rfloor> + 2"
    and cf: "map det_confidence vs =
        map (\<lambda>k. add_d (lit (85 / 100)) (mul_d (draws (steady_world r) (2 + 6 * k)) (lit (15 / 100))))
          [0..<length vs]"
    and ped: "if draws (steady_world r) (1 + 6 * length vs) > lit (7 / 10)
       then \<exists>p. ps = [p] \<and> det_class p = Some ''person'' \<and>
                det_confidence p =
                  add_d (lit (75 / 100))
                    (mul_d (draws (steady_world r) (2 + 6 * length vs)) (lit (25 / 100))) \<and>
                3 / 4 \<le> det_confidence p \<and> det_confidence p \<le> 1
       else ps = []"
    by blast
  from len have l6: "length vs = 6" by (simp only: d n)
  from cf have "map det_confidence vs = map (\<lambda>k. 1) [0..<6]" by (simp only: d cv l6)
  then have v: "map det_confidence vs = [1, 1, 1, 1, 1, 1]"
    by (simp add: map_replicate_const eval_nat_numeral)
  from ped t obtain p where "ps = [p]" "det_confidence p = 1"
    unfolding d cp by (auto split: if_splits)
  with res v have "map det_confidence (fst (performObjectDetection () (steady_world r))) =
     [1, 1, 1, 1, 1, 1, 1]" by simp
  with u show ?thesis by (simp only: r_def)
qed

section \<open>Properties of the pending-alert handlers\<close>

text \<open>
  C9. A rejection that succeeds found exactly one pending alert with the identifier; it
  sets the status of that row to rejected and records the approver (\<open>system\<close> when none is
  given), the clock reading and the reason (\<open>User rejected\<close> when none is given), and
  returns the row. The other pending alerts, the alerts and the streams are as before.
\<close>

theorem reject_effect:
  assumes "fst (reject k reason who s) = Ok_200 r"
  shows "\<exists>p. filter (\<lambda>x. pa_id x = k) (tbl_pending_alerts s) = [p] \<and>
           r = p\<lparr>pa_status := Rejected,
                 pa_rejection_reason := Some (or_string reason ''User rejected''),
                 pa_approved_by := Some (or_string who ''system''),
                 pa_approved_at := Some (ticks (env s) 0)\<rparr> \<and>
           filter (\<lambda>x. pa_id x = k) (tbl_pending_alerts (snd (reject k reason who s))) = [r] \<and>
           filter (\<lambda>x. pa_id x \<noteq> k) (tbl_pending_alerts (snd (reject k reason who s))) =
             filter (\<lambda>x. pa_id x \<noteq> k) (tbl_pending_alerts s) \<and>
           tbl_alerts (snd (reject k reason who s)) = tbl_alerts s \<and>
           tbl_streams (snd (reject k reason who s)) = tbl_streams s"
proof -
  let ?rows = "filter (\<lambda>x. pa_id x = k) (tbl_pending_alerts s)"
  let ?t = "ticks (env s) 0"
  from assms obtain p where p: "?rows = [p]" and r: "r = rejected_row reason who ?t p"
    unfolding reject_response by (cases ?rows rule: single.cases) simp_all
  have others: "filter (\<lambda>x. pa_id x \<noteq> k)
      (map (\<lambda>r. if pa_id r = k then rejected_row reason who ?t r else r) (tbl_pending_alerts s)) =
      filter (\<lambda>x. pa_id x \<noteq> k) (tbl_pending_alerts s)"
    by (rule other_rows_kept) simp
  have st: "snd (reject k reason who s) =
      s\<lparr>tbl_pending_alerts :=
           map (\<lambda>r. if pa_id r = k then rejected_row reason who ?t r else r) (tbl_pending_alerts s),
        env := snd (Date_now (env s)),
        emitted := emitted s @ [Alert_rejected (rejected_row reason who ?t p)]\<rparr>"
    by (simp add: reject_state p Let_def)
  have "filter (\<lambda>x. pa_id x = k) (tbl_pending_alerts (snd (reject k reason who s))) = [r]"
    by (simp add: st rejected_rows p r)
  moreover have "filter (\<lambda>x. pa_id x \<noteq> k) (tbl_pending_alerts (snd (reject k reason who s))) =
             filter (\<lambda>x. pa_id x \<noteq> k) (tbl_pending_alerts s)"
    by (simp add: st others)
  moreover have "tbl_alerts (snd (reject k reason who s)) = tbl_alerts s"
    "tbl_streams (snd (reject k reason who s)) = tbl_streams s"
    by (simp_all add: st)
  moreover have "r = p\<lparr>pa_status := Rejected,
                 pa_rejection_reason := Some (or_string reason ''User rejected''),
                 pa_approved_by := Some (or_string who ''system''),
                 pa_approved_at := Some (ticks (env s) 0)\<rparr>"
    by (simp add: r rejected_row_def)
  ultimately show ?thesis using p by blast
qed

theorem reject_effect_witness:
  "fst (reject 12 (Some ''false positive'') (Some ''operator-1'') office) =
     Ok_200 (waiting\<lparr>pa_status := Rejected,
                    pa_rejection_reason := Some ''false positive'',
                    pa_approved_by := Some ''operator-1'',
                    pa_approved_at := Some 1000\<rparr>) \<and>
   tbl_alerts (snd (reject 12 (Some ''false positive'') (Some ''operator-1'') office)) = [] \<and>
   tbl_streams (snd (reject 12 (Some ''false positive'') (Some ''operator-1'') office)) = [camera]"
proof -
  have ok: "fst (reject 12 (Some ''false positive'') (Some ''operator-1'') office) =
     Ok_200 (rejected_row (Some ''false positive'') (Some ''operator-1'') (ticks (env office) 0) waiting)"
    by (simp add: reject_response office_waiting)
  have o: "tbl_alerts office = []" "tbl_streams office = [camera]" "ticks (env office) 0 = 1000"
    by (simp_all add: office_def)
  from reject_effect [OF ok]
  have "tbl_alerts (snd (reject 12 (Some ''false positive'') (Some ''operator-1'') office)) =
          tbl_alerts office"
    and "tbl_streams (snd (reject 12 (Some ''false positive'') (Some ''operator-1'') office)) =
          tbl_streams office"
    by blast+
  with ok show ?thesis
    by (simp add: o rejected_row_def or_string_def)
qed

text \<open>
  C3, as the handler implements it. An approval that succeeds found exactly one pending
  alert with the identifier; it sets the status of that row to approved and records the
  approver (\<open>system\<close> when none is given) and the first clock reading. It appends exactly
  one alert: status sent, type accident, \<^verbatim>\<open>sent_at\<close> the second clock reading, severity
  and location those of the detection payload (\<open>high\<close> and \<open>Unknown\<close> when the payload
  has none), confidence and payload copied from the pending alert. The owning stream
  exists. When the database accepts the last update, which is when the accident count that
  the handler writes fits the integer column, the owning stream gets the status alert, and
  no other column of it changes but the accident count, about which this statement says
  nothing. When the database refuses that update, the handler does not notice: the owning
  stream stays as it was and the approval succeeds all the same. No other stream changes.
\<close>

theorem approve_effect:
  assumes "fst (approve k who s) = Ok_200 (pa, al)"
  shows "\<exists>a. al = Some a \<and>
     filter (\<lambda>x. pa_id x = k) (tbl_pending_alerts s) = [pa] \<and>
     filter (\<lambda>x. pa_id x = k) (tbl_pending_alerts (snd (approve k who s))) =
       [pa\<lparr>pa_status := Approved,
           pa_approved_by := Some (or_string who ''system''),
           pa_approved_at := Some (ticks (env s) 0)\<rparr>] \<and>
     tbl_alerts (snd (approve k who s)) = tbl_alerts s @ [a] \<and>
     al_status a = Sent \<and> al_type a = Accident \<and>
     al_sent_at a = Some (ticks (env s) 1) \<and>
     al_stream_id a = pa_stream_id pa \<and>
     al_severity a = or_string (dd_severity (pa_detection_data pa)) ''high'' \<and>
     al_location a = or_string (dd_location (pa_detection_data pa)) ''Unknown'' \<and>
     al_confidence a = pa_confidence pa \<and>
     al_detection_data a = pa_detection_data pa \<and>
     pa_stream_id pa \<in> st_id ` set (tbl_streams s) \<and>
     list_all2
       (\<lambda>r r'. if st_id r = pa_stream_id pa \<and>
                   fits_integer (or_number (dd_accident_count (pa_detection_data pa)) 1)
                then r' = r\<lparr>st_status := Alert, st_accident_count := st_accident_count r'\<rparr>
                else r' = r)
       (tbl_streams s) (tbl_streams (snd (approve k who s)))"
proof -
  let ?rows = "filter (\<lambda>x. pa_id x = k) (tbl_pending_alerts s)"
  let ?a = "alertData pa (ticks (env s) 1) (fresh_uuid s)"
  from assms have rows: "?rows = [pa]" and ins: "alert_insertable pa s"
    unfolding approve_result
    by (cases ?rows rule: single.cases; simp split: if_splits)+
  from rows ins have res: "approve k who s = (Ok_200 (pa, Some ?a), approve_ok_state k who pa s)"
    by (simp add: approve_result)
  with assms have al: "al = Some ?a" by simp
  have pend: "filter (\<lambda>x. pa_id x = k) (tbl_pending_alerts (snd (approve k who s))) =
       [pa\<lparr>pa_status := Approved,
           pa_approved_by := Some (or_string who ''system''),
           pa_approved_at := Some (ticks (env s) 0)\<rparr>]"
    by (simp add: res approve_ok_state_def approved_rows rows) (simp add: approved_row_def)
  have alerts: "tbl_alerts (snd (approve k who s)) = tbl_alerts s @ [?a]"
    by (simp add: res approve_ok_state_def)
  have owner: "pa_stream_id pa \<in> st_id ` set (tbl_streams s)"
    using ins by (simp add: alert_insertable_def)
  have streams: "list_all2
       (\<lambda>r r'. if st_id r = pa_stream_id pa \<and>
                   fits_integer (or_number (dd_accident_count (pa_detection_data pa)) 1)
                then r' = r\<lparr>st_status := Alert, st_accident_count := st_accident_count r'\<rparr>
                else r' = r)
       (tbl_streams s) (tbl_streams (snd (approve k who s)))"
    by (simp add: res approve_ok_state_def alerted_streams_def list_all2_map2 list_all2_same)
  from al rows pend alerts owner streams show ?thesis
    by (simp add: alertData_fields)
qed

theorem approve_effect_witness:
  "fst (approve 12 (Some ''operator-1'') office) = Ok_200 (waiting, Some (alertData waiting 1001 100)) \<and>
   al_status (alertData waiting 1001 100) = Sent \<and>
   al_severity (alertData waiting 1001 100) = ''critical'' \<and>
   al_location (alertData waiting 1001 100) = ''Main St'' \<and>
   al_description (alertData waiting 1001 100) = ''Accident detected with 0.85 confidence'' \<and>
   tbl_alerts decided = tbl_alerts office @ [alertData waiting 1001 100] \<and>
   map st_status (tbl_streams decided) = [Alert]"
proof -
  have ok: "fst (approve 12 (Some ''operator-1'') office) =
      Ok_200 (waiting, Some (alertData waiting 1001 100))"
    by (simp add: office_approve)
  from approve_effect [OF ok]
  have "tbl_alerts (snd (approve 12 (Some ''operator-1'') office)) =
      tbl_alerts office @ [alertData waiting 1001 100]"
    by auto
  moreover have "al_description (alertData waiting 1001 100) = ''Accident detected with 0.85 confidence''"
    by (simp add: alertData_def waiting_def toFixed2_def digit_char_def show_nat.simps Let_def
        lit_def store_fl)
  ultimately show ?thesis using ok
    by (simp add: decided_def [symmetric] alertData_fields decided_tables)
       (simp add: waiting_def or_string_def)
qed

text \<open>
  C3 as stated fails: the store has a stream with three accidents; approving its pending
  alert leaves the accident count at 1, not 4, and the alert's \<^verbatim>\<open>sent_at\<close> (1001) is a
  later clock reading than the \<^verbatim>\<open>approved_at\<close> of the decision (1000). The payload
  names no severity and no location, and the alert gets \<open>high\<close> and \<open>Unknown\<close>. In the
  store whose pending alert carries the accident count 3000000000, which does not fit the
  column, the approval succeeds and creates the alert, and the stream is as before, idle.
\<close>

theorem approve_sets_count_and_reads_clock_twice:
  "\<not> is_error (fst (approve 13 None lobby)) \<and>
   map st_accident_count (tbl_streams lobby) = [3] \<and>
   map st_accident_count (tbl_streams (snd (approve 13 None lobby))) = [1] \<and>
   map pa_approved_at (tbl_pending_alerts (snd (approve 13 None lobby))) = [Some 1000] \<and>
   map al_sent_at (tbl_alerts (snd (approve 13 None lobby))) = [Some 1001] \<and>
   dd_severity (pa_detection_data bare) = None \<and>
   dd_location (pa_detection_data bare) = None \<and>
   map al_severity (tbl_alerts (snd (approve 13 None lobby))) = [''high''] \<and>
   map al_location (tbl_alerts (snd (approve 13 None lobby))) = [''Unknown''] \<and>
   \<not> is_error (fst (approve 14 None vault)) \<and>
   dd_accident_count (pa_detection_data huge) = Some 3000000000 \<and>
   map st_status (tbl_streams vault) = [Inactive] \<and>
   tbl_streams (snd (approve 14 None vault)) = tbl_streams vault \<and>
   length (tbl_alerts (snd (approve 14 None vault))) = 1"
  by (simp add: lobby_approve vault_approve approve_ok_state_def alertData_fields)
     (simp add: lobby_def vault_def office_def camera_def approved_row_def bare_def huge_def
        alerted_streams_def or_number_def fits_integer_def or_string_def)

text \<open>
  C1, as the handlers implement it. Neither handler looks at the status of the pending
  alert. Whenever exactly one pending alert has the identifier, whatever its status, a
  rejection succeeds and leaves it rejected, and an approval succeeds whenever the alert can
  be inserted, leaves it approved and appends one more alert.
\<close>

theorem decisions_unguarded:
  assumes "filter (\<lambda>x. pa_id x = k) (tbl_pending_alerts s) = [p]"
  shows "(alert_insertable p s \<longrightarrow>
            (\<exists>a. fst (approve k who s) = Ok_200 (p, Some a) \<and>
                 tbl_alerts (snd (approve k who s)) = tbl_alerts s @ [a] \<and>
                 map pa_status (filter (\<lambda>x. pa_id x = k)
                    (tbl_pending_alerts (snd (approve k who s)))) = [Approved])) \<and>
         (\<exists>r. fst (reject k reason who s) = Ok_200 r \<and>
              map pa_status (filter (\<lambda>x. pa_id x = k)
                 (tbl_pending_alerts (snd (reject k reason who s)))) = [Rejected] \<and>
              tbl_alerts (snd (reject k reason who s)) = tbl_alerts s)"
proof (intro conjI impI)
  assume "alert_insertable p s"
  with assms have "approve k who s =
      (Ok_200 (p, Some (alertData p (ticks (env s) 1) (fresh_uuid s))), approve_ok_state k who p s)"
    by (simp add: approve_result)
  then show "\<exists>a. fst (approve k who s) = Ok_200 (p, Some a) \<and>
                 tbl_alerts (snd (approve k who s)) = tbl_alerts s @ [a] \<and>
                 map pa_status (filter (\<lambda>x. pa_id x = k)
                    (tbl_pending_alerts (snd (approve k who s)))) = [Approved]"
    by (simp add: approve_ok_state_def approved_rows assms) (simp add: approved_row_def)
next
  show "\<exists>r. fst (reject k reason who s) = Ok_200 r \<and>
              map pa_status (filter (\<lambda>x. pa_id x = k)
                 (tbl_pending_alerts (snd (reject k reason who s)))) = [Rejected] \<and>
              tbl_alerts (snd (reject k reason who s)) = tbl_alerts s"
    by (simp add: reject_response reject_state assms Let_def rejected_rows)
       (simp add: rejected_row_def)
qed

theorem decisions_unguarded_witness:
  "filter (\<lambda>x. pa_id x = 12) (tbl_pending_alerts decided) =
      [approved_row (Some ''operator-1'') 1000 waiting] \<and>
   pa_status (approved_row (Some ''operator-1'') 1000 waiting) = Approved \<and>
   (\<exists>a. fst (approve 12 (Some ''operator-2'') decided) =
          Ok_200 (approved_row (Some ''operator-1'') 1000 waiting, Some a) \<and>
        tbl_alerts (snd (approve 12 (Some ''operator-2'') decided)) = tbl_alerts decided @ [a]) \<and>
   (\<exists>r. fst (reject 12 None (Some ''operator-2'') decided) = Ok_200 r \<and>
        map pa_status (filter (\<lambda>x. pa_id x = 12)
          (tbl_pending_alerts (snd (reject 12 None (Some ''operator-2'') decided)))) = [Rejected])"
  using decisions_unguarded [OF decided_row, of "Some ''operator-2''" None] decided_insertable
    decided_row
  by (auto simp: approved_row_def)

text \<open>
  C1 as stated fails: once the pending alert has been approved and its alert created, a
  second approval is answered with success and creates a second alert, and a rejection is
  answered with success and turns the approved alert into a rejected one.
\<close>

theorem second_decision_accepted:
  "map pa_status (tbl_pending_alerts decided) = [Approved] \<and>
   length (tbl_alerts decided) = 1 \<and>
   \<not> is_error (fst (approve 12 (Some ''operator-2'') decided)) \<and>
   length (tbl_alerts (snd (approve 12 (Some ''operator-2'') decided))) = 2 \<and>
   \<not> is_error (fst (reject 12 None (Some ''operator-2'') decided)) \<and>
   map pa_status (tbl_pending_alerts (snd (reject 12 None (Some ''operator-2'') decided))) =
     [Rejected]"
proof -
  have a: "approve 12 (Some ''operator-2'') decided =
      (Ok_200 (approved_row (Some ''operator-1'') 1000 waiting,
               Some (alertData (approved_row (Some ''operator-1'') 1000 waiting)
                       (ticks (env decided) 1) (fresh_uuid decided))),
       approve_ok_state 12 (Some ''operator-2'') (approved_row (Some ''operator-1'') 1000 waiting)
         decided)"
    by (simp add: approve_result decided_row decided_insertable)
  have r: "fst (reject 12 None (Some ''operator-2'') decided) =
      Ok_200 (rejected_row None (Some ''operator-2'') (ticks (env decided) 0)
                (approved_row (Some ''operator-1'') 1000 waiting))"
    by (simp add: reject_response decided_row)
  have rs: "tbl_pending_alerts (snd (reject 12 None (Some ''operator-2'') decided)) =
      map (\<lambda>r. if pa_id r = 12
                then rejected_row None (Some ''operator-2'') (ticks (env decided) 0) r else r)
        (tbl_pending_alerts decided)"
    by (simp add: reject_state decided_row Let_def)
  show ?thesis
    by (simp add: a r rs approve_ok_state_def decided_tables)
       (simp add: approved_row_def rejected_row_def waiting_def)
qed

section \<open>Properties of starting a stream\<close>

text \<open>
  C2, as the handler implements it. The handler does not look at the status of the
  stream. Whenever exactly one stream has the identifier, whatever its status, starting it
  succeeds: the stream becomes active and processing, with the clock reading as its last
  processed time, and one more polling timer is registered for it. The older variant of
  the route on the Mongoose models does the same.
\<close>

theorem start_unguarded:
  assumes "filter (\<lambda>r. st_id r = k) (tbl_streams s) = [st]"
  shows "fst (start k s) =
           Ok_200 (Some (st\<lparr>st_status := Active, st_is_processing := True,
                            st_last_processed := Some (ticks (env s) 0)\<rparr>)) \<and>
         filter (\<lambda>r. st_id r = k) (tbl_streams (snd (start k s))) =
           [st\<lparr>st_status := Active, st_is_processing := True,
               st_last_processed := Some (ticks (env s) 0)\<rparr>] \<and>
         intervals (snd (start k s)) =
           intervals s @ [Some (st\<lparr>st_status := Active, st_is_processing := True,
                                   st_last_processed := Some (ticks (env s) 0)\<rparr>)] \<and>
         fst (start_mongoose k s) =
           Ok_200 (st\<lparr>st_status := Active, st_is_processing := True,
                      st_last_processed := Some (ticks (env s) 0)\<rparr>) \<and>
         intervals (snd (start_mongoose k s)) =
           intervals s @ [Some (st\<lparr>st_status := Active, st_is_processing := True,
                                   st_last_processed := Some (ticks (env s) 0)\<rparr>)]"
  by (simp add: start_result start_mongoose_result assms started_rows)
     (simp add: started_row_def)

theorem start_unguarded_witness:
  "filter (\<lambda>r. st_id r = 7) (tbl_streams monitored) = [started_row 1000 camera] \<and>
   st_status (started_row 1000 camera) = Active \<and>
   st_is_processing (started_row 1000 camera) \<and>
   intervals (snd (start 7 monitored)) =
     [Some (started_row 1000 camera), Some (started_row 1001 camera)]"
  using start_unguarded [OF monitored_camera] monitored_camera
  by (simp add: monitored_tables) (simp add: started_row_def)

text \<open>
  C2 as stated fails: starting the stream that is already active, with its polling timer
  running, is answered with success and registers a second polling timer for it.
\<close>

theorem second_start_accepted:
  "map st_status (tbl_streams monitored) = [Active] \<and>
   map st_is_processing (tbl_streams monitored) = [True] \<and>
   length (intervals monitored) = 1 \<and>
   \<not> is_error (fst (start 7 monitored)) \<and>
   map (map_option st_id) (intervals (snd (start 7 monitored))) = [Some 7, Some 7] \<and>
   \<not> is_error (fst (start_mongoose 7 monitored)) \<and>
   map (map_option st_id) (intervals (snd (start_mongoose 7 monitored))) = [Some 7, Some 7]"
  by (simp add: start_result start_mongoose_result [OF monitored_camera] monitored_camera
      monitored_tables)
     (simp add: started_row_def camera_def)

end
